theory Spec2Isabelle
  imports Complex_Main "HOL-Library.Multiset"
begin

section \<open>The minibatch feeder of \<^verbatim>\<open>utils/data_generator.py\<close>\<close>

text \<open>
  The class \<^verbatim>\<open>DataGenerator\<close> loads a feature table, resolves two metadata
  lists into row indices and hands out batches through two Python generators.
  Exceptions are values of the type \<open>error\<close>; a generator is a state together with
  a function computing the answer to one request.
\<close>

subsection \<open>Errors and arrays\<close>

datatype error =
    KeyError string
  | IndexError
  | ValueError
  | Exception string

text \<open>
  An integer array used as an index carries its element type: \<^verbatim>\<open>np.array([])\<close> of
  an empty Python list is a \<^verbatim>\<open>float64\<close> array, any array built from row
  positions is \<^verbatim>\<open>int64\<close>. Slicing, copying and shuffling keep the element type.
\<close>

datatype dtype = Int64 | Float64

type_synonym index_array = "dtype \<times> nat list"

definition np_array :: "nat list \<Rightarrow> index_array" where
  "np_array xs = (if xs = [] then (Float64, []) else (Int64, xs))"

text \<open>\<^verbatim>\<open>xs[start:stop]\<close> for arbitrary integers, as Python clamps them.\<close>

definition py_slice :: "'a list \<Rightarrow> int \<Rightarrow> int \<Rightarrow> 'a list" where
  "py_slice xs start stop =
     (let n = int (length xs);
          lo = (if start < 0 then max (start + n) 0 else min start n);
          hi = (if stop < 0 then max (stop + n) 0 else min stop n)
      in take (nat (hi - lo)) (drop (nat lo) xs))"

definition slice_array :: "index_array \<Rightarrow> int \<Rightarrow> int \<Rightarrow> index_array" where
  "slice_array a start stop = (fst a, py_slice (snd a) start stop)"

text \<open>
  \<^verbatim>\<open>arr[idx]\<close> with an index array: an array that is not of an integer type is
  refused, and so is a position outside the indexed array.
\<close>

definition take_rows :: "'a list \<Rightarrow> index_array \<Rightarrow> error + 'a list" where
  "take_rows arr idx =
     (if fst idx = Float64 then Inl IndexError
      else if list_all (\<lambda>i. i < length arr) (snd idx)
        then Inr (map (\<lambda>i. arr ! i) (snd idx))
      else Inl IndexError)"

subsection \<open>The random state\<close>

text \<open>
  Modelled from the spec: the feeder's seeded random state and its in-place shuffle
  belong to the array library, not to the repository. The random state is an
  arbitrary infinite sequence of raw draws; \<open>rk_interval\<close> turns the next draw into
  a number in \<open>[0, mx]\<close> (the library may consume several words of its generator
  for one such number: a draw stands for what it returns), and \<open>shuffle\<close> is the
  library's loop
  \<^verbatim>\<open>for i in reversed(range(1, n)): j = rk_interval(i); x[i], x[j] = x[j], x[i]\<close>.
  Every result below holds for every such sequence, so for every seed.
\<close>

type_synonym rng = "nat \<Rightarrow> nat"

definition rk_interval :: "nat \<Rightarrow> rng \<Rightarrow> nat \<times> rng" where
  "rk_interval mx rs = (rs 0 mod (mx + 1), \<lambda>k. rs (Suc k))"

fun shuffle_loop :: "nat \<Rightarrow> nat list \<Rightarrow> rng \<Rightarrow> nat list \<times> rng" where
  "shuffle_loop 0 x rs = (x, rs)"
| "shuffle_loop (Suc i) x rs =
     (case rk_interval (Suc i) rs of
        (j, rs') \<Rightarrow> shuffle_loop i (x[Suc i := x ! j, j := x ! Suc i]) rs')"

definition shuffle :: "index_array \<Rightarrow> rng \<Rightarrow> index_array \<times> rng" where
  "shuffle a rs =
     (case shuffle_loop (length (snd a) - 1) (snd a) rs of
        (x, rs') \<Rightarrow> ((fst a, x), rs'))"

subsection \<open>The feature table\<close>

text \<open>
  The on-disk store as \<^verbatim>\<open>load_hdf5\<close> sees it: each named array is present or
  not. Byte strings are taken as already decoded. Feature values are reals.
\<close>

record hdf5_file =
  hf_audio_name :: "string list option"
  hf_feature :: "real list list option"
  hf_scene_label :: "string list option"
  hf_identifier :: "string list option"
  hf_source_label :: "string list option"

record data_dict =
  audio_name :: "string list"
  feature :: "real list list"
  target :: "int list option"
  identifiers :: "string list option"
  source_label :: "string list option"

text \<open>
  \<^verbatim>\<open>[self.lb_to_idx[l.decode()] for l in hf['scene_label'][:]]\<close>: the first label
  that the table \<^verbatim>\<open>config.lb_to_idx\<close> (a parameter here) does not know raises.
\<close>

fun labels_to_idx :: "(string \<rightharpoonup> int) \<Rightarrow> string list \<Rightarrow> error + int list" where
  "labels_to_idx lb_to_idx [] = Inr []"
| "labels_to_idx lb_to_idx (l # ls) =
     (case lb_to_idx l of
        None \<Rightarrow> Inl (KeyError l)
      | Some i \<Rightarrow>
          (case labels_to_idx lb_to_idx ls of
             Inl e \<Rightarrow> Inl e
           | Inr r \<Rightarrow> Inr (i # r)))"

definition load_hdf5 :: "(string \<rightharpoonup> int) \<Rightarrow> hdf5_file \<Rightarrow> error + data_dict" where
  "load_hdf5 lb_to_idx hf =
     (case hf_audio_name hf of
        None \<Rightarrow> Inl (KeyError ''audio_name'')
      | Some names \<Rightarrow>
     (case hf_feature hf of
        None \<Rightarrow> Inl (KeyError ''feature'')
      | Some feats \<Rightarrow>
     (case (case hf_scene_label hf of
              None \<Rightarrow> Inr None
            | Some labels \<Rightarrow>
                (case labels_to_idx lb_to_idx labels of
                   Inl e \<Rightarrow> Inl e
                 | Inr t \<Rightarrow> Inr (Some t))) of
        Inl e \<Rightarrow> Inl e
      | Inr tgt \<Rightarrow>
          Inr \<lparr> audio_name = names, feature = feats, target = tgt,
                identifiers = hf_identifier hf,
                source_label = hf_source_label hf \<rparr>)))"

subsection \<open>Index resolution\<close>

text \<open>\<^verbatim>\<open>np.argwhere(names == name)\<close>: the positions that hold the name, ascending.\<close>

definition argwhere_eq :: "string list \<Rightarrow> string \<Rightarrow> nat list" where
  "argwhere_eq names name = filter (\<lambda>i. names ! i = name) [0..<length names]"

text \<open>
  The loop of \<^verbatim>\<open>get_audio_indexes\<close> over \<^verbatim>\<open>meta['audio_name']\<close>; the metadata
  table is given by that column.
\<close>

fun audio_indexes_of :: "string list \<Rightarrow> data_dict \<Rightarrow> nat list" where
  "audio_indexes_of [] dd = []"
| "audio_indexes_of (name # rest) dd =
     (let loct = argwhere_eq (audio_name dd) name
      in if length loct > 0 then loct ! 0 # audio_indexes_of rest dd
         else audio_indexes_of rest dd)"

definition get_audio_indexes :: "string list \<Rightarrow> data_dict \<Rightarrow> index_array" where
  "get_audio_indexes meta dd = np_array (audio_indexes_of meta dd)"

subsection \<open>The feeder\<close>

record scalar =
  mean :: "real list"
  std :: "real list"

record DataGenerator =
  scalar :: scalar
  batch_size :: int
  random_state :: rng
  classes_num :: nat
  data_dict :: data_dict
  train_audio_indexes :: index_array
  validate_audio_indexes :: index_array

text \<open>
  \<^verbatim>\<open>__init__\<close>. The two metadata tables arrive parsed (their name columns), and
  the random state stands for \<^verbatim>\<open>np.random.RandomState(seed)\<close>.
\<close>

definition DataGenerator_init ::
  "(string \<rightharpoonup> int) \<Rightarrow> hdf5_file \<Rightarrow> string list \<Rightarrow> string list \<Rightarrow> nat \<Rightarrow> scalar \<Rightarrow> int \<Rightarrow> rng
     \<Rightarrow> error + DataGenerator" where
  "DataGenerator_init lb_to_idx hf train_meta validate_meta classes scal bs rs =
     (case load_hdf5 lb_to_idx hf of
        Inl e \<Rightarrow> Inl e
      | Inr dd \<Rightarrow>
          Inr \<lparr> scalar = scal, batch_size = bs, random_state = rs,
                classes_num = classes, data_dict = dd,
                train_audio_indexes = get_audio_indexes train_meta dd,
                validate_audio_indexes = get_audio_indexes validate_meta dd \<rparr>)"

subsection \<open>Building one batch\<close>

text \<open>
  Modelled from the spec: \<^verbatim>\<open>utilities.scale\<close> is not among the sources. It returns
  \<open>(x - mean) / std\<close> element by element for rows of the dimension of \<open>mean\<close> and
  \<open>std\<close>, and fails on a shape mismatch.
\<close>

definition scale :: "real list list \<Rightarrow> real list \<Rightarrow> real list \<Rightarrow> error + real list list" where
  "scale x m s =
     (if length m = length s \<and> list_all (\<lambda>row. length row = length m) x
      then Inr (map (\<lambda>row. map (\<lambda>(v, c, d). (v - c) / d) (zip row (zip m s))) x)
      else Inl ValueError)"

definition transform :: "DataGenerator \<Rightarrow> real list list \<Rightarrow> error + real list list" where
  "transform g x = scale x (mean (scalar g)) (std (scalar g))"

text \<open>
  Modelled from the spec: \<^verbatim>\<open>utilities.sparse_to_categorical\<close> is not among the
  sources. Each class index becomes a row of width \<open>n_out\<close> with 1 at the class
  index and 0 elsewhere. A class index that is no position of such a row (negative,
  or \<open>n_out\<close> and above) makes the conversion fail, and the error of the array
  library is passed on as it is.
\<close>

definition sparse_to_categorical :: "int list \<Rightarrow> nat \<Rightarrow> error + real list list" where
  "sparse_to_categorical x n_out =
     (if list_all (\<lambda>c. 0 \<le> c \<and> c < int n_out) x
      then Inr (map (\<lambda>c. map (\<lambda>j. if int j = c then 1 else 0) [0..<n_out]) x)
      else Inl IndexError)"

record batch =
  b_audio_name :: "string list"
  b_feature :: "real list list"
  b_target :: "real list list"

text \<open>
  The body shared by both loops, from \<^verbatim>\<open>batch_data_dict = {}\<close> to the
  \<^verbatim>\<open>yield\<close>, in the order of the source: names, features, normalisation,
  then \<^verbatim>\<open>self.data_dict['target']\<close> and the one-hot conversion.
\<close>

definition make_batch :: "DataGenerator \<Rightarrow> index_array \<Rightarrow> error + batch" where
  "make_batch g batch_audio_indexes =
     (case take_rows (audio_name (data_dict g)) batch_audio_indexes of
        Inl e \<Rightarrow> Inl e
      | Inr names \<Rightarrow>
     (case take_rows (feature (data_dict g)) batch_audio_indexes of
        Inl e \<Rightarrow> Inl e
      | Inr batch_feature \<Rightarrow>
     (case transform g batch_feature of
        Inl e \<Rightarrow> Inl e
      | Inr batch_feature' \<Rightarrow>
     (case target (data_dict g) of
        None \<Rightarrow> Inl (KeyError ''target'')
      | Some tgt \<Rightarrow>
     (case take_rows tgt batch_audio_indexes of
        Inl e \<Rightarrow> Inl e
      | Inr sparse_target \<Rightarrow>
     (case sparse_to_categorical sparse_target (classes_num g) of
        Inl e \<Rightarrow> Inl e
      | Inr categorical \<Rightarrow>
          Inr \<lparr> b_audio_name = names, b_feature = batch_feature',
                b_target = categorical \<rparr>))))))"

subsection \<open>The training stream\<close>

text \<open>
  The frame of the generator \<^verbatim>\<open>generate_train\<close>: its copy of the index array, the
  pointer and the random state it draws from.
\<close>

record train_gen =
  t_audio_indexes :: index_array
  t_pointer :: int
  t_random_state :: rng

text \<open>
  The statements before the loop: copy, first shuffle, pointer at 0. A generator
  runs them at the first request; they cannot fail, so the frame is given as they
  leave it.
\<close>

definition generate_train :: "DataGenerator \<Rightarrow> train_gen" where
  "generate_train g =
     (case shuffle (train_audio_indexes g) (random_state g) of
        (a, rs) \<Rightarrow> \<lparr> t_audio_indexes = a, t_pointer = 0, t_random_state = rs \<rparr>)"

text \<open>\<^verbatim>\<open>if pointer >= len(audio_indexes): pointer = 0; shuffle\<close>.\<close>

definition reset_pointer :: "train_gen \<Rightarrow> train_gen" where
  "reset_pointer st =
     (if t_pointer st \<ge> int (length (snd (t_audio_indexes st)))
      then (case shuffle (t_audio_indexes st) (t_random_state st) of
              (a, rs) \<Rightarrow> \<lparr> t_audio_indexes = a, t_pointer = 0, t_random_state = rs \<rparr>)
      else st)"

text \<open>
  One request: one turn of the \<^verbatim>\<open>while True\<close> loop up to its \<^verbatim>\<open>yield\<close>. The
  answer is the batch together with the slice \<^verbatim>\<open>batch_audio_indexes\<close> it was
  gathered from and the frame for the next request.
\<close>

definition train_next ::
  "DataGenerator \<Rightarrow> train_gen \<Rightarrow> error + (index_array \<times> batch \<times> train_gen)" where
  "train_next g st0 =
     (let st = reset_pointer st0;
          batch_audio_indexes =
            slice_array (t_audio_indexes st) (t_pointer st) (t_pointer st + batch_size g);
          st' = st\<lparr> t_pointer := t_pointer st + batch_size g \<rparr>
      in case make_batch g batch_audio_indexes of
           Inl e \<Rightarrow> Inl e
         | Inr b \<Rightarrow> Inr (batch_audio_indexes, b, st'))"

text \<open>The first \<open>m\<close> requests in a row; an error of one of them ends the stream.\<close>

fun train_run ::
  "DataGenerator \<Rightarrow> nat \<Rightarrow> train_gen \<Rightarrow> error + ((index_array \<times> batch) list \<times> train_gen)" where
  "train_run g 0 st = Inr ([], st)"
| "train_run g (Suc m) st =
     (case train_next g st of
        Inl e \<Rightarrow> Inl e
      | Inr (idx, b, st') \<Rightarrow>
          (case train_run g m st' of
             Inl e \<Rightarrow> Inl e
           | Inr (ys, st'') \<Rightarrow> Inr ((idx, b) # ys, st'')))"

subsection \<open>The validation stream\<close>

text \<open>
  \<^verbatim>\<open>get_source_indexes\<close>: the comprehension reads
  \<^verbatim>\<open>data_dict['source_label'][index]\<close> for each index in turn.
\<close>

fun source_indexes_of :: "nat list \<Rightarrow> data_dict \<Rightarrow> string list \<Rightarrow> error + nat list" where
  "source_indexes_of [] dd sources = Inr []"
| "source_indexes_of (index # rest) dd sources =
     (case source_label dd of
        None \<Rightarrow> Inl (KeyError ''source_label'')
      | Some sl \<Rightarrow>
          if index < length sl then
            (case source_indexes_of rest dd sources of
               Inl e \<Rightarrow> Inl e
             | Inr r \<Rightarrow> Inr (if sl ! index \<in> set sources then index # r else r))
          else Inl IndexError)"

definition get_source_indexes ::
  "index_array \<Rightarrow> data_dict \<Rightarrow> string list \<Rightarrow> error + index_array" where
  "get_source_indexes indexes dd sources =
     (case source_indexes_of (snd indexes) dd sources of
        Inl e \<Rightarrow> Inl e
      | Inr r \<Rightarrow> Inr (np_array r))"

record validate_gen =
  v_audio_indexes :: index_array
  v_max_iteration :: "int option"
  v_iteration :: int
  v_pointer :: int

text \<open>
  The statements of \<^verbatim>\<open>generate_validate\<close> before its loop. A generator runs them
  at the first request, so an error here is what that first request raises.
\<close>

definition generate_validate ::
  "DataGenerator \<Rightarrow> string \<Rightarrow> string list \<Rightarrow> int option \<Rightarrow> error + validate_gen" where
  "generate_validate g data_type sources max_iteration =
     (if data_type = ''train'' then
        Inr \<lparr> v_audio_indexes = train_audio_indexes g, v_max_iteration = max_iteration,
              v_iteration = 0, v_pointer = 0 \<rparr>
      else if data_type = ''validate'' then
        (case get_source_indexes (validate_audio_indexes g) (data_dict g) sources of
           Inl e \<Rightarrow> Inl e
         | Inr a \<Rightarrow>
             Inr \<lparr> v_audio_indexes = a, v_max_iteration = max_iteration,
                   v_iteration = 0, v_pointer = 0 \<rparr>)
      else Inl (Exception ''Incorrect argument!''))"

datatype 'a step = Yield 'a | Stop | Raise error

text \<open>One turn of the loop of \<^verbatim>\<open>generate_validate\<close>.\<close>

definition validate_next ::
  "DataGenerator \<Rightarrow> validate_gen \<Rightarrow> (index_array \<times> batch \<times> validate_gen) step" where
  "validate_next g st =
     (if Some (v_iteration st) = v_max_iteration st then Stop
      else if v_pointer st \<ge> int (length (snd (v_audio_indexes st))) then Stop
      else
        (let batch_audio_indexes =
               slice_array (v_audio_indexes st) (v_pointer st) (v_pointer st + batch_size g);
             st' = st\<lparr> v_pointer := v_pointer st + batch_size g,
                       v_iteration := v_iteration st + 1 \<rparr>
         in case make_batch g batch_audio_indexes of
              Inl e \<Rightarrow> Raise e
            | Inr b \<Rightarrow> Yield (batch_audio_indexes, b, st')))"

text \<open>
  Requests until the stream ends, from a frame that the statements before the loop
  have made: the batches yielded, and the error that ended the stream if one did. The loop need not end (a batch size of 0 never advances the
  pointer), so the requests are counted down from \<open>fuel\<close> and \<open>None\<close> means that
  the stream was still running.
\<close>

fun validate_drain ::
  "nat \<Rightarrow> DataGenerator \<Rightarrow> validate_gen \<Rightarrow> ((index_array \<times> batch) list \<times> error option) option" where
  "validate_drain 0 g st = None"
| "validate_drain (Suc fuel) g st =
     (case validate_next g st of
        Stop \<Rightarrow> Some ([], None)
      | Raise e \<Rightarrow> Some ([], Some e)
      | Yield (idx, b, st') \<Rightarrow>
          (case validate_drain fuel g st' of
             None \<Rightarrow> None
           | Some (ys, r) \<Rightarrow> Some ((idx, b) # ys, r)))"

definition validate_stream ::
  "nat \<Rightarrow> DataGenerator \<Rightarrow> string \<Rightarrow> string list \<Rightarrow> int option
     \<Rightarrow> ((index_array \<times> batch) list \<times> error option) option" where
  "validate_stream fuel g data_type sources max_iteration =
     (case generate_validate g data_type sources max_iteration of
        Inl e \<Rightarrow> Some ([], Some e)
      | Inr st \<Rightarrow> validate_drain fuel g st)"

subsection \<open>The call and the first request\<close>

text \<open>
  \<^verbatim>\<open>generate_validate\<close> contains a \<^verbatim>\<open>yield\<close>, so calling it runs none of its
  body: the call returns a generator object that holds the arguments, and cannot
  fail. The first request on that object runs the statements before the loop and
  then the first turn of the loop; each later request runs one more turn; a
  generator that has stopped or raised is finished and only stops again.
\<close>

datatype validate_generator =
    Unstarted string "string list" "int option"
  | Suspended validate_gen
  | Finished

definition generate_validate_call ::
  "DataGenerator \<Rightarrow> string \<Rightarrow> string list \<Rightarrow> int option \<Rightarrow> error + validate_generator" where
  "generate_validate_call g data_type sources max_iteration =
     Inr (Unstarted data_type sources max_iteration)"

definition validate_turn ::
  "DataGenerator \<Rightarrow> validate_gen \<Rightarrow> (index_array \<times> batch) step \<times> validate_generator" where
  "validate_turn g st =
     (case validate_next g st of
        Yield (idx, b, st') \<Rightarrow> (Yield (idx, b), Suspended st')
      | Stop \<Rightarrow> (Stop, Finished)
      | Raise e \<Rightarrow> (Raise e, Finished))"

definition validate_request ::
  "DataGenerator \<Rightarrow> validate_generator \<Rightarrow> (index_array \<times> batch) step \<times> validate_generator" where
  "validate_request g gen =
     (case gen of
        Unstarted data_type sources max_iteration \<Rightarrow>
          (case generate_validate g data_type sources max_iteration of
             Inl e \<Rightarrow> (Raise e, Finished)
           | Inr st \<Rightarrow> validate_turn g st)
      | Suspended st \<Rightarrow> validate_turn g st
      | Finished \<Rightarrow> (Stop, Finished))"

subsection \<open>Notions of the specification\<close>

text \<open>
  The invariant of the feature table (all arrays that are present have the length
  of the name column) and the agreement of the feature rows with the
  normalisation vectors (one last dimension).
\<close>

definition table_ok :: "data_dict \<Rightarrow> bool" where
  "table_ok dd =
     (length (feature dd) = length (audio_name dd) \<and>
      (case target dd of None \<Rightarrow> True | Some t \<Rightarrow> length t = length (audio_name dd)) \<and>
      (case identifiers dd of None \<Rightarrow> True | Some t \<Rightarrow> length t = length (audio_name dd)) \<and>
      (case source_label dd of None \<Rightarrow> True | Some t \<Rightarrow> length t = length (audio_name dd)))"

definition scalar_ok :: "DataGenerator \<Rightarrow> bool" where
  "scalar_ok g =
     (length (mean (scalar g)) = length (std (scalar g)) \<and>
      list_all (\<lambda>row. length row = length (mean (scalar g))) (feature (data_dict g)))"

text \<open>The number of batches of one pass: the length of the set over the batch size, rounded up.\<close>

definition ceil_div :: "nat \<Rightarrow> nat \<Rightarrow> nat" where
  "ceil_div n b = (n + b - 1) div b"

definition epoch_len :: "DataGenerator \<Rightarrow> nat" where
  "epoch_len g = ceil_div (length (snd (train_audio_indexes g))) (nat (batch_size g))"

text \<open>
  The order of the index set during pass \<open>e\<close> of the training stream: the first
  shuffle for pass 0, and for each later pass the shuffle of the order of the pass
  before, drawn from the random state that pass left.
\<close>

fun epoch_perm :: "DataGenerator \<Rightarrow> nat \<Rightarrow> index_array \<times> rng" where
  "epoch_perm g 0 = shuffle (train_audio_indexes g) (random_state g)"
| "epoch_perm g (Suc e) = shuffle (fst (epoch_perm g e)) (snd (epoch_perm g e))"

text \<open>
  The index set the validation stream walks: the train set as it is, or the
  validation set filtered, in order, by membership of the source label.
\<close>

definition filtered_indexes :: "DataGenerator \<Rightarrow> string \<Rightarrow> string list \<Rightarrow> nat list" where
  "filtered_indexes g data_type sources =
     (if data_type = ''train'' then snd (train_audio_indexes g)
      else (case source_label (data_dict g) of
              None \<Rightarrow> []
            | Some sl \<Rightarrow> filter (\<lambda>i. sl ! i \<in> set sources) (snd (validate_audio_indexes g))))"


text \<open>The row indices behind a run of yielded batches, in the order of the yields.\<close>

definition yielded_indexes :: "(index_array \<times> batch) list \<Rightarrow> nat list" where
  "yielded_indexes ys = concat (map (\<lambda>y. snd (fst y)) ys)"

text \<open>
  An index list resolves a metadata list against the name column: it has one entry
  for each metadata name that occurs in the column, in the order of the metadata,
  and the entry is the first row that holds the name.
\<close>

definition resolves :: "string list \<Rightarrow> string list \<Rightarrow> nat list \<Rightarrow> bool" where
  "resolves names meta idx =
     (let matched = filter (\<lambda>name. name \<in> set names) meta
      in length idx \<le> length meta \<and>
         length idx = length matched \<and>
         (\<forall>k < length idx.
            idx ! k < length names \<and> names ! (idx ! k) = matched ! k \<and>
            (\<forall>j < idx ! k. names ! j \<noteq> matched ! k)))"

text \<open>
  The rows are the one-hot encoding of the class indices over the given width: one
  row of that width for each class index, the class index is a position of the row,
  the row holds 1 there and 0 at every other position.
\<close>

definition is_one_hot :: "int list \<Rightarrow> nat \<Rightarrow> real list list \<Rightarrow> bool" where
  "is_one_hot sparse width rows =
     (length rows = length sparse \<and>
      (\<forall>r < length sparse.
         0 \<le> sparse ! r \<and> sparse ! r < int width \<and>
         length (rows ! r) = width \<and>
         rows ! r ! nat (sparse ! r) = 1 \<and>
         (\<forall>j < width. j \<noteq> nat (sparse ! r) \<longrightarrow> rows ! r ! j = 0)))"

text \<open>Every class index of the table is one of the \<open>classes_num\<close> classes.\<close>

definition targets_ok :: "DataGenerator \<Rightarrow> bool" where
  "targets_ok g =
     (case target (data_dict g) of
        None \<Rightarrow> True
      | Some t \<Rightarrow> list_all (\<lambda>c. 0 \<le> c \<and> c < int (classes_num g)) t)"

subsection \<open>A small feeder\<close>

text \<open>
  Five rows with two classes and three recording devices; the train metadata names
  every row, the validation metadata names three rows and one file that is not in
  the store. The second store is the same without the label column.
\<close>

definition ex_hf :: hdf5_file where
  "ex_hf = \<lparr> hf_audio_name = Some [''a'', ''b'', ''c'', ''d'', ''e''],
             hf_feature = Some [[1, 2], [3, 4], [5, 6], [7, 8], [9, 10]],
             hf_scene_label = Some [''x'', ''y'', ''x'', ''y'', ''x''],
             hf_identifier = None,
             hf_source_label = Some [''a'', ''b'', ''a'', ''c'', ''a''] \<rparr>"

definition ex_hf_unlabelled :: hdf5_file where
  "ex_hf_unlabelled = ex_hf \<lparr> hf_scene_label := None \<rparr>"

definition ex_lb_to_idx :: "string \<rightharpoonup> int" where
  "ex_lb_to_idx = [''x'' \<mapsto> 0, ''y'' \<mapsto> 1]"

definition ex_scalar :: scalar where
  "ex_scalar = \<lparr> mean = [0, 0], std = [1, 1] \<rparr>"

definition ex_rs :: rng where
  "ex_rs = (\<lambda>k. 7 * k + 3)"

definition ex_train_meta :: "string list" where
  "ex_train_meta = [''a'', ''b'', ''c'', ''d'', ''e'']"

definition ex_validate_meta :: "string list" where
  "ex_validate_meta = [''c'', ''zz'', ''a'', ''b'']"

definition ex_dd :: data_dict where
  "ex_dd = \<lparr> audio_name = [''a'', ''b'', ''c'', ''d'', ''e''],
             feature = [[1, 2], [3, 4], [5, 6], [7, 8], [9, 10]],
             target = Some [0, 1, 0, 1, 0],
             identifiers = None,
             source_label = Some [''a'', ''b'', ''a'', ''c'', ''a''] \<rparr>"

definition ex_feeder :: DataGenerator where
  "ex_feeder = \<lparr> scalar = ex_scalar, batch_size = 2, random_state = ex_rs,
                 classes_num = 2, data_dict = ex_dd,
                 train_audio_indexes = (Int64, [0, 1, 2, 3, 4]),
                 validate_audio_indexes = (Int64, [2, 0, 1]) \<rparr>"

definition ex_feeder_unlabelled :: DataGenerator where
  "ex_feeder_unlabelled = ex_feeder \<lparr> data_dict := ex_dd \<lparr> target := None \<rparr> \<rparr>"

section \<open>Properties\<close>

subsection \<open>Slices, shuffles and gathers\<close>

lemma py_slice_nat:
  assumes "0 \<le> p" "0 \<le> b"
  shows "py_slice xs p (p + b) = take (nat b) (drop (nat p) xs)"
proof (cases "p \<le> int (length xs)")
  case True
  have "nat (min (p + b) (int (length xs)) - p) = min (nat b) (length xs - nat p)"
    using assms True by (simp add: min_def) linarith
  moreover have "take (min (nat b) (length xs - nat p)) (drop (nat p) xs) = take (nat b) (drop (nat p) xs)"
    by (cases "nat b \<le> length xs - nat p") (simp_all add: min_def)
  ultimately show ?thesis using assms True
    by (simp add: py_slice_def Let_def min_absorb1)
next
  case False
  then show ?thesis using assms
    by (simp add: py_slice_def Let_def min_def)
qed

lemma set_py_slice: "set (py_slice xs p q) \<subseteq> set xs"
  unfolding py_slice_def Let_def
  by (meson set_take_subset set_drop_subset subset_trans)

lemma mset_shuffle_loop: "i < length x \<Longrightarrow> mset (fst (shuffle_loop i x rs)) = mset x"
proof (induction i arbitrary: x rs)
  case 0
  then show ?case by simp
next
  case (Suc i)
  let ?j = "rs 0 mod (Suc i + 1)"
  have j: "?j < length x"
  proof -
    have "?j < Suc i + 1" by simp
    with Suc.prems show ?thesis by linarith
  qed
  show ?case
    using Suc.prems Suc.IH[of "x[Suc i := x ! ?j, ?j := x ! Suc i]"] j
    by (simp add: rk_interval_def mset_swap)
qed

lemma length_shuffle_loop: "length (fst (shuffle_loop i x rs)) = length x"
  by (induction i arbitrary: x rs) (simp_all add: rk_interval_def)

lemma shuffle_dtype: "fst (fst (shuffle a rs)) = fst a"
  by (simp add: shuffle_def case_prod_beta)

lemma shuffle_length: "length (snd (fst (shuffle a rs))) = length (snd a)"
  using length_shuffle_loop[of "length (snd a) - 1" "snd a" rs]
  by (simp add: shuffle_def case_prod_beta)

lemma shuffle_mset: "mset (snd (fst (shuffle a rs))) = mset (snd a)"
proof (cases "snd a = []")
  case True
  then show ?thesis by (simp add: shuffle_def)
next
  case False
  then have "length (snd a) - 1 < length (snd a)" by simp
  from mset_shuffle_loop[OF this, of rs] show ?thesis
    by (simp add: shuffle_def case_prod_beta)
qed

lemma shuffle_set: "set (snd (fst (shuffle a rs))) = set (snd a)"
  using shuffle_mset[of a rs] by (rule mset_eq_setD)

lemma snd_np_array: "snd (np_array xs) = xs"
  by (simp add: np_array_def)

lemma fst_np_array: "xs \<noteq> [] \<Longrightarrow> fst (np_array xs) = Int64"
  by (simp add: np_array_def)

lemma take_rows_Inr:
  assumes "fst idx = Int64" "\<And>i. i \<in> set (snd idx) \<Longrightarrow> i < length arr"
  shows "take_rows arr idx = Inr (map (\<lambda>i. arr ! i) (snd idx))"
  using assms by (simp add: take_rows_def list_all_iff)

lemma take_rows_length: "take_rows arr idx = Inr r \<Longrightarrow> length r = length (snd idx)"
  by (auto simp: take_rows_def split: if_splits)

lemma take_rows_eq: "take_rows arr idx = Inr r \<Longrightarrow> r = map (\<lambda>i. arr ! i) (snd idx)"
  by (auto simp: take_rows_def split: if_splits)

subsection \<open>Index resolution\<close>

lemma argwhere_eq_empty_iff: "argwhere_eq names name = [] \<longleftrightarrow> name \<notin> set names"
  by (auto simp: argwhere_eq_def filter_empty_conv in_set_conv_nth)

lemma argwhere_eq_first:
  assumes "name \<in> set names"
  shows "argwhere_eq names name ! 0 < length names"
    and "names ! (argwhere_eq names name ! 0) = name"
    and "\<forall>j < argwhere_eq names name ! 0. names ! j \<noteq> name"
proof -
  let ?l = "argwhere_eq names name"
  from assms have ne: "?l \<noteq> []" by (simp add: argwhere_eq_empty_iff)
  then have mem: "?l ! 0 \<in> set ?l" by simp
  then show "?l ! 0 < length names" "names ! (?l ! 0) = name"
    by (auto simp: argwhere_eq_def)
  have srt: "sorted ?l" by (simp add: argwhere_eq_def sorted_wrt_filter)
  show "\<forall>j < ?l ! 0. names ! j \<noteq> name"
  proof (intro allI impI notI)
    fix j assume j: "j < ?l ! 0" and eq: "names ! j = name"
    from j \<open>?l ! 0 < length names\<close> have "j < length names" by simp
    with eq have "j \<in> set ?l" by (simp add: argwhere_eq_def)
    then obtain k where "k < length ?l" "?l ! k = j" by (auto simp: in_set_conv_nth)
    with srt have "?l ! 0 \<le> j" by (metis sorted_nth_mono le0)
    with j show False by simp
  qed
qed

lemma audio_indexes_of_eq:
  "audio_indexes_of meta dd =
     map (\<lambda>name. argwhere_eq (audio_name dd) name ! 0)
       (filter (\<lambda>name. name \<in> set (audio_name dd)) meta)"
  by (induction meta) (auto simp: Let_def argwhere_eq_empty_iff)

lemma audio_indexes_of_bound:
  "i \<in> set (audio_indexes_of meta dd) \<Longrightarrow> i < length (audio_name dd)"
  by (auto simp: audio_indexes_of_eq argwhere_eq_first(1))

lemma audio_indexes_of_resolves:
  "resolves (audio_name dd) meta (audio_indexes_of meta dd)"
proof -
  let ?names = "audio_name dd"
  let ?matched = "filter (\<lambda>name. name \<in> set ?names) meta"
  have len: "length (audio_indexes_of meta dd) = length ?matched"
    by (simp add: audio_indexes_of_eq)
  have le: "length ?matched \<le> length meta" by simp
  have each: "audio_indexes_of meta dd ! k < length ?names \<and>
        ?names ! (audio_indexes_of meta dd ! k) = ?matched ! k \<and>
        (\<forall>j < audio_indexes_of meta dd ! k. ?names ! j \<noteq> ?matched ! k)"
    if k: "k < length (audio_indexes_of meta dd)" for k
  proof -
    from k len have k': "k < length ?matched" by simp
    then have "?matched ! k \<in> set ?matched" by (rule nth_mem)
    then have mem: "?matched ! k \<in> set ?names" by simp
    have nth: "audio_indexes_of meta dd ! k = argwhere_eq ?names (?matched ! k) ! 0"
      using k' by (simp add: audio_indexes_of_eq)
    show ?thesis unfolding nth using argwhere_eq_first[OF mem] by blast
  qed
  show ?thesis
    unfolding resolves_def Let_def using len le each by simp
qed

lemma init_fields:
  assumes "DataGenerator_init lb hf train_meta validate_meta classes scal bs rs = Inr g"
  shows "train_audio_indexes g = get_audio_indexes train_meta (data_dict g)"
    and "validate_audio_indexes g = get_audio_indexes validate_meta (data_dict g)"
    and "load_hdf5 lb hf = Inr (data_dict g)"
    and "batch_size g = bs" and "classes_num g = classes" and "scalar g = scal"
    and "random_state g = rs"
  using assms by (auto simp: DataGenerator_init_def split: sum.splits)

lemma load_hdf5_target:
  "load_hdf5 lb hf = Inr dd \<Longrightarrow> target dd = None \<longleftrightarrow> hf_scene_label hf = None"
  by (auto simp: load_hdf5_def split: option.splits sum.splits)


lemma init_train_bound:
  assumes "DataGenerator_init lb hf train_meta validate_meta classes scal bs rs = Inr g"
  shows "i \<in> set (snd (train_audio_indexes g)) \<Longrightarrow> i < length (audio_name (data_dict g))"
    and "i \<in> set (snd (validate_audio_indexes g)) \<Longrightarrow> i < length (audio_name (data_dict g))"
  using init_fields(1,2)[OF assms]
  by (auto simp: get_audio_indexes_def snd_np_array dest: audio_indexes_of_bound)

lemma init_train_dtype:
  assumes "DataGenerator_init lb hf train_meta validate_meta classes scal bs rs = Inr g"
  shows "snd (train_audio_indexes g) \<noteq> [] \<Longrightarrow> fst (train_audio_indexes g) = Int64"
    and "snd (validate_audio_indexes g) \<noteq> [] \<Longrightarrow> fst (validate_audio_indexes g) = Int64"
  using init_fields(1,2)[OF assms]
  by (auto simp: get_audio_indexes_def np_array_def split: if_splits)

subsection \<open>The small feeder is the constructor's result\<close>

lemma ex_lb_to_idx_simps: "ex_lb_to_idx ''x'' = Some 0" "ex_lb_to_idx ''y'' = Some 1"
  by (simp_all add: ex_lb_to_idx_def)

lemma ex_load: "load_hdf5 ex_lb_to_idx ex_hf = Inr ex_dd"
  by (simp add: load_hdf5_def ex_hf_def ex_dd_def ex_lb_to_idx_simps)

lemma ex_load_unlabelled:
  "load_hdf5 ex_lb_to_idx ex_hf_unlabelled = Inr (ex_dd \<lparr> target := None \<rparr>)"
  by (simp add: load_hdf5_def ex_hf_def ex_hf_unlabelled_def ex_dd_def)

lemma ex_train_idx: "get_audio_indexes ex_train_meta ex_dd = (Int64, [0, 1, 2, 3, 4])"
  by code_simp

lemma ex_validate_idx: "get_audio_indexes ex_validate_meta ex_dd = (Int64, [2, 0, 1])"
  by code_simp

lemma audio_indexes_of_target:
  "audio_indexes_of meta (dd \<lparr> target := t \<rparr>) = audio_indexes_of meta dd"
  by (induction meta) (simp_all add: Let_def)

lemma ex_init:
  "DataGenerator_init ex_lb_to_idx ex_hf ex_train_meta ex_validate_meta 2 ex_scalar 2 ex_rs
     = Inr ex_feeder"
  by (simp add: DataGenerator_init_def ex_load ex_train_idx ex_validate_idx ex_feeder_def)

lemma ex_init_unlabelled:
  "DataGenerator_init ex_lb_to_idx ex_hf_unlabelled ex_train_meta ex_validate_meta 2 ex_scalar 2 ex_rs
     = Inr ex_feeder_unlabelled"
  using ex_train_idx ex_validate_idx
  by (simp add: DataGenerator_init_def ex_load_unlabelled ex_feeder_def
      ex_feeder_unlabelled_def get_audio_indexes_def audio_indexes_of_target)

subsection \<open>Resolved index sets\<close>

text \<open>
  C5. For every constructed feeder each of the two index sets resolves its metadata
  list: it is no longer than the list, it has as many entries as the list has names
  that occur in the name column of the table, entry \<open>k\<close> is the first row holding
  the \<open>k\<close>-th such name, and the other names are passed over without an error.
\<close>

theorem index_sets_resolve_metadata:
  assumes "DataGenerator_init lb hf train_meta validate_meta classes scal bs rs = Inr g"
  shows "resolves (audio_name (data_dict g)) train_meta (snd (train_audio_indexes g)) \<and>
         resolves (audio_name (data_dict g)) validate_meta (snd (validate_audio_indexes g))"
  using init_fields(1,2)[OF assms]
  by (simp add: get_audio_indexes_def snd_np_array audio_indexes_of_resolves)

theorem index_sets_resolve_metadata_witness:
  "DataGenerator_init ex_lb_to_idx ex_hf ex_train_meta ex_validate_meta 2 ex_scalar 2 ex_rs
     = Inr ex_feeder \<and>
   resolves [''a'', ''b'', ''c'', ''d'', ''e''] ex_validate_meta [2, 0, 1] \<and>
   length [2, 0, 1 :: nat] < length ex_validate_meta"
  using index_sets_resolve_metadata[OF ex_init] ex_init
  by (simp add: ex_feeder_def ex_dd_def ex_validate_meta_def)

subsection \<open>An unknown mode\<close>

text \<open>
  The claim C4 as it is written fails: the call of \<^verbatim>\<open>generate_validate\<close> with an
  unknown mode does not fail. It returns a generator that has not started, and the
  error is raised by the first request on it.
\<close>

theorem unknown_mode_call_returns_counterexample:
  "generate_validate_call ex_feeder ''test'' [''a''] None
     = Inr (Unstarted ''test'' [''a''] None) \<and>
   validate_request ex_feeder (Unstarted ''test'' [''a''] None)
     = (Raise (Exception ''Incorrect argument!''), Finished)"
  by (simp add: generate_validate_call_def validate_request_def generate_validate_def)

text \<open>
  C4, amended. For every mode other than "train" and "validate" the call of the
  validation stream returns a generator without an error; the first request on that
  generator fails with the error \<^verbatim>\<open>Exception('Incorrect argument!')\<close>, raised by
  the statements that precede the loop, so no batch has been produced; the generator
  is then finished and a further request only ends the stream. This holds whatever
  the feeder, the source list and the maximum iteration count.
\<close>

theorem generate_validate_unknown_mode:
  assumes "data_type \<noteq> ''train''" "data_type \<noteq> ''validate''"
  shows "generate_validate_call g data_type sources max_iteration
           = Inr (Unstarted data_type sources max_iteration) \<and>
         validate_request g (Unstarted data_type sources max_iteration)
           = (Raise (Exception ''Incorrect argument!''), Finished) \<and>
         validate_request g Finished = (Stop, Finished)"
  using assms
  by (simp add: generate_validate_call_def validate_request_def generate_validate_def)

theorem generate_validate_unknown_mode_witness:
  "''test'' \<noteq> ''train'' \<and> ''test'' \<noteq> ''validate'' \<and>
   generate_validate_call ex_feeder ''test'' [''a''] None
     = Inr (Unstarted ''test'' [''a''] None) \<and>
   validate_request ex_feeder (Unstarted ''test'' [''a''] None)
     = (Raise (Exception ''Incorrect argument!''), Finished) \<and>
   validate_request ex_feeder Finished = (Stop, Finished)"
  using generate_validate_unknown_mode[of "''test''" ex_feeder "[''a'']" None]
  by simp


subsection \<open>Building a batch\<close>

lemma scale_length: "scale x m s = Inr y \<Longrightarrow> length y = length x"
  by (auto simp: scale_def split: if_splits)

lemma scale_Inr:
  assumes "length m = length s" "\<And>row. row \<in> set x \<Longrightarrow> length row = length m"
  shows "\<exists>y. scale x m s = Inr y"
  using assms by (simp add: scale_def list_all_iff)

lemma sparse_to_categorical_length:
  "sparse_to_categorical sparse width = Inr rows \<Longrightarrow> length rows = length sparse"
  by (auto simp: sparse_to_categorical_def split: if_splits)

lemma sparse_to_categorical_Inr:
  "(\<And>c. c \<in> set sparse \<Longrightarrow> 0 \<le> c \<and> c < int width) \<Longrightarrow>
   \<exists>rows. sparse_to_categorical sparse width = Inr rows"
  by (simp add: sparse_to_categorical_def list_all_iff)

lemma sparse_to_categorical_one_hot:
  assumes "sparse_to_categorical sparse width = Inr rows"
  shows "is_one_hot sparse width rows"
proof -
  from assms have rng: "\<And>c. c \<in> set sparse \<Longrightarrow> 0 \<le> c \<and> c < int width"
    and rows: "rows = map (\<lambda>c. map (\<lambda>j. if int j = c then 1 else 0) [0..<width]) sparse"
    by (auto simp: sparse_to_categorical_def list_all_iff split: if_splits)
  have "0 \<le> sparse ! r \<and> sparse ! r < int width \<and> length (rows ! r) = width \<and>
        rows ! r ! nat (sparse ! r) = 1 \<and>
        (\<forall>j < width. j \<noteq> nat (sparse ! r) \<longrightarrow> rows ! r ! j = 0)"
    if r: "r < length sparse" for r
  proof -
    from r have c: "0 \<le> sparse ! r" "sparse ! r < int width" using rng by simp_all
    then have pos: "nat (sparse ! r) < width" by simp
    have row: "rows ! r = map (\<lambda>j. if int j = sparse ! r then 1 else 0) [0..<width]"
      using r by (simp add: rows)
    have one: "rows ! r ! nat (sparse ! r) = 1" using pos c by (simp add: row)
    have zero: "rows ! r ! j = 0" if "j < width" "j \<noteq> nat (sparse ! r)" for j
      using that c by (auto simp: row)
    from c one zero show ?thesis by (simp add: row)
  qed
  moreover have "length rows = length sparse" by (simp add: rows)
  ultimately show ?thesis unfolding is_one_hot_def by blast
qed

lemma make_batch_target_None:
  "target (data_dict g) = None \<Longrightarrow> make_batch g idx \<noteq> Inr b"
  by (simp add: make_batch_def split: sum.splits)

lemma make_batch_D:
  assumes "make_batch g idx = Inr b"
  shows "\<exists>tgt sparse. target (data_dict g) = Some tgt \<and> take_rows tgt idx = Inr sparse \<and>
           sparse_to_categorical sparse (classes_num g) = Inr (b_target b) \<and>
           take_rows (audio_name (data_dict g)) idx = Inr (b_audio_name b) \<and>
           length (b_feature b) = length (snd idx)"
  using assms
  by (auto simp: make_batch_def transform_def split: sum.splits option.splits
      dest!: scale_length take_rows_length)

lemma make_batch_rows:
  assumes "make_batch g idx = Inr b"
  shows "length (b_audio_name b) = length (snd idx)"
    and "length (b_feature b) = length (snd idx)"
    and "length (b_target b) = length (snd idx)"
proof -
  from make_batch_D[OF assms] obtain tgt sparse where
    *: "take_rows tgt idx = Inr sparse"
       "sparse_to_categorical sparse (classes_num g) = Inr (b_target b)"
       "take_rows (audio_name (data_dict g)) idx = Inr (b_audio_name b)"
       "length (b_feature b) = length (snd idx)"
    by blast
  show "length (b_audio_name b) = length (snd idx)" using *(3) by (rule take_rows_length)
  show "length (b_feature b) = length (snd idx)" by (rule *(4))
  show "length (b_target b) = length (snd idx)"
    using take_rows_length[OF *(1)] sparse_to_categorical_length[OF *(2)] by simp
qed

text \<open>What a gather needs: an integer index array whose entries are rows of the table.\<close>

lemma gather_features_ok:
  assumes ok: "table_ok (data_dict g)" "scalar_ok g"
    and idx: "fst idx = Int64" "\<And>i. i \<in> set (snd idx) \<Longrightarrow> i < length (audio_name (data_dict g))"
  shows "\<exists>names bf bf'. take_rows (audio_name (data_dict g)) idx = Inr names \<and>
           take_rows (feature (data_dict g)) idx = Inr bf \<and> transform g bf = Inr bf'"
proof -
  let ?dd = "data_dict g"
  have len: "length (feature ?dd) = length (audio_name ?dd)"
    using ok(1) by (simp add: table_ok_def)
  have n: "take_rows (audio_name ?dd) idx = Inr (map (\<lambda>i. audio_name ?dd ! i) (snd idx))"
    using idx by (rule take_rows_Inr)
  have f: "take_rows (feature ?dd) idx = Inr (map (\<lambda>i. feature ?dd ! i) (snd idx))"
    using idx len by (intro take_rows_Inr) simp_all
  have rows: "length row = length (mean (scalar g))"
    if "row \<in> set (map (\<lambda>i. feature ?dd ! i) (snd idx))" for row
  proof -
    from that obtain i where "i \<in> set (snd idx)" "row = feature ?dd ! i" by auto
    with idx(2) len have "row \<in> set (feature ?dd)" by simp
    with ok(2) show ?thesis by (simp add: scalar_ok_def list_all_iff)
  qed
  have "\<exists>y. transform g (map (\<lambda>i. feature ?dd ! i) (snd idx)) = Inr y"
    unfolding transform_def using ok(2) rows
    by (intro scale_Inr) (simp_all add: scalar_ok_def)
  with n f show ?thesis by blast
qed

lemma make_batch_Inr:
  assumes ok: "table_ok (data_dict g)" "scalar_ok g" "targets_ok g"
    and tgt: "target (data_dict g) \<noteq> None"
    and idx: "fst idx = Int64" "\<And>i. i \<in> set (snd idx) \<Longrightarrow> i < length (audio_name (data_dict g))"
  shows "\<exists>b. make_batch g idx = Inr b"
proof -
  from gather_features_ok[OF ok(1,2) idx] obtain names bf bf' where
    *: "take_rows (audio_name (data_dict g)) idx = Inr names"
       "take_rows (feature (data_dict g)) idx = Inr bf" "transform g bf = Inr bf'"
    by blast
  from tgt obtain t where t: "target (data_dict g) = Some t" by auto
  with ok(1) have len: "length t = length (audio_name (data_dict g))"
    by (simp add: table_ok_def)
  then have sp: "take_rows t idx = Inr (map (\<lambda>i. t ! i) (snd idx))"
    using idx by (intro take_rows_Inr) simp_all
  have "0 \<le> c \<and> c < int (classes_num g)" if "c \<in> set (map (\<lambda>i. t ! i) (snd idx))" for c
  proof -
    from that obtain i where "i \<in> set (snd idx)" "c = t ! i" by auto
    with idx(2) len have "c \<in> set t" by simp
    with ok(3) t show ?thesis by (simp add: targets_ok_def list_all_iff)
  qed
  then obtain rows where
    "sparse_to_categorical (map (\<lambda>i. t ! i) (snd idx)) (classes_num g) = Inr rows"
    using sparse_to_categorical_Inr by blast
  with * t sp show ?thesis by (simp add: make_batch_def)
qed

lemma make_batch_KeyError:
  assumes ok: "table_ok (data_dict g)" "scalar_ok g"
    and tgt: "target (data_dict g) = None"
    and idx: "fst idx = Int64" "\<And>i. i \<in> set (snd idx) \<Longrightarrow> i < length (audio_name (data_dict g))"
  shows "make_batch g idx = Inl (KeyError ''target'')"
proof -
  from gather_features_ok[OF ok idx] obtain names bf bf' where
    *: "take_rows (audio_name (data_dict g)) idx = Inr names"
       "take_rows (feature (data_dict g)) idx = Inr bf" "transform g bf = Inr bf'"
    by blast
  with tgt show ?thesis by (simp add: make_batch_def)
qed

lemma train_next_D:
  assumes "train_next g st = Inr (idx, b, st')"
  shows "make_batch g idx = Inr b"
    and "idx = slice_array (t_audio_indexes (reset_pointer st)) (t_pointer (reset_pointer st))
                 (t_pointer (reset_pointer st) + batch_size g)"
    and "st' = (reset_pointer st)\<lparr> t_pointer := t_pointer (reset_pointer st) + batch_size g \<rparr>"
  using assms by (auto simp: train_next_def Let_def split: sum.splits)

lemma validate_next_D:
  assumes "validate_next g st = Yield (idx, b, st')"
  shows "make_batch g idx = Inr b"
    and "idx = slice_array (v_audio_indexes st) (v_pointer st) (v_pointer st + batch_size g)"
    and "st' = st\<lparr> v_pointer := v_pointer st + batch_size g, v_iteration := v_iteration st + 1 \<rparr>"
    and "Some (v_iteration st) \<noteq> v_max_iteration st"
    and "v_pointer st < int (length (snd (v_audio_indexes st)))"
  using assms by (auto simp: validate_next_def Let_def split: sum.splits if_splits)

subsection \<open>One-hot targets\<close>

lemma ex_first_batch:
  "map_sum id (\<lambda>(idx, b, st'). (idx, b)) (train_next ex_feeder (generate_train ex_feeder))
     = Inr ((Int64, [1, 0]),
            \<lparr> b_audio_name = [''b'', ''a''], b_feature = [[3, 4], [1, 2]],
              b_target = [[0, 1], [1, 0]] \<rparr>)"
  by code_simp

text \<open>
  C9. Every batch that either stream yields has as its target field the one-hot
  encoding, over the width \<open>classes_num\<close>, of the class indices gathered from the
  target column at the rows of the batch: one row per class index, the class index
  is a position of the row, and the row holds 1 there and 0 elsewhere. For the class indices 2, 0, 1 and three classes the
  encoding is the rows 0 0 1, 1 0 0 and 0 1 0.
\<close>

theorem yielded_target_one_hot:
  assumes "train_next g st = Inr (idx, b, st') \<or> validate_next g vst = Yield (idx, b, vst')"
  shows "\<exists>tgt sparse. target (data_dict g) = Some tgt \<and>
           sparse = map (\<lambda>i. tgt ! i) (snd idx) \<and>
           is_one_hot sparse (classes_num g) (b_target b) \<and>
           sparse_to_categorical [2, 0, 1] 3 = Inr [[0, 0, 1], [1, 0, 0], [0, 1, 0]]"
proof -
  from assms have "make_batch g idx = Inr b"
    by (auto dest: train_next_D(1) validate_next_D(1))
  from make_batch_D[OF this] obtain tgt sparse where
    *: "target (data_dict g) = Some tgt" "take_rows tgt idx = Inr sparse"
       "sparse_to_categorical sparse (classes_num g) = Inr (b_target b)"
    by blast
  have "sparse = map (\<lambda>i. tgt ! i) (snd idx)" using *(2) by (rule take_rows_eq)
  moreover have "is_one_hot sparse (classes_num g) (b_target b)"
    using *(3) by (rule sparse_to_categorical_one_hot)
  moreover have "sparse_to_categorical [2, 0, 1] 3 = Inr [[0, 0, 1], [1, 0, 0], [0, 1, 0]]"
    by (simp add: sparse_to_categorical_def upt_rec[of _ "numeral _"])
  ultimately show ?thesis using *(1) by blast
qed

theorem yielded_target_one_hot_witness:
  "\<exists>st'. train_next ex_feeder (generate_train ex_feeder)
       = Inr ((Int64, [1, 0]),
              \<lparr> b_audio_name = [''b'', ''a''], b_feature = [[3, 4], [1, 2]],
                b_target = [[0, 1], [1, 0]] \<rparr>, st') \<and>
     is_one_hot [1, 0] 2 [[0, 1], [1, 0]]"
proof -
  let ?b = "\<lparr> b_audio_name = [''b'', ''a''], b_feature = [[3, 4], [1, 2]],
              b_target = [[0, 1], [1, 0 :: real]] \<rparr>"
  from ex_first_batch obtain st' where
    st': "train_next ex_feeder (generate_train ex_feeder) = Inr ((Int64, [1, 0]), ?b, st')"
    by (cases "train_next ex_feeder (generate_train ex_feeder)") auto
  from yielded_target_one_hot[of ex_feeder "generate_train ex_feeder" "(Int64, [1, 0])" ?b st', OF disjI1, OF st']
  have "is_one_hot [1, 0] 2 [[0, 1], [1, 0]]"
    by (simp add: ex_feeder_def ex_dd_def)
  with st' show ?thesis by blast
qed

subsection \<open>The frames of the two generators\<close>

lemma generate_train_fields:
  "t_audio_indexes (generate_train g) = fst (shuffle (train_audio_indexes g) (random_state g))"
  "t_pointer (generate_train g) = 0"
  "t_random_state (generate_train g) = snd (shuffle (train_audio_indexes g) (random_state g))"
  by (simp_all add: generate_train_def case_prod_beta)

lemma reset_pointer_id:
  "t_pointer st < int (length (snd (t_audio_indexes st))) \<Longrightarrow> reset_pointer st = st"
  by (simp add: reset_pointer_def)

lemma reset_pointer_set:
  "set (snd (t_audio_indexes (reset_pointer st))) = set (snd (t_audio_indexes st))"
  by (simp add: reset_pointer_def case_prod_beta shuffle_set)

lemma reset_pointer_dtype:
  "fst (t_audio_indexes (reset_pointer st)) = fst (t_audio_indexes st)"
  by (simp add: reset_pointer_def case_prod_beta shuffle_dtype)

lemma reset_pointer_length:
  "length (snd (t_audio_indexes (reset_pointer st))) = length (snd (t_audio_indexes st))"
  by (simp add: reset_pointer_def case_prod_beta shuffle_length)

text \<open>The slice a request of the training stream gathers from.\<close>

lemma train_slice_ok:
  assumes init: "DataGenerator_init lb hf train_meta validate_meta classes scal bs rs = Inr g"
    and ne: "snd (train_audio_indexes g) \<noteq> []"
    and st: "fst (t_audio_indexes st) = Int64"
            "set (snd (t_audio_indexes st)) \<subseteq> set (snd (train_audio_indexes g))"
  shows "fst (slice_array (t_audio_indexes (reset_pointer st)) p q) = Int64"
    and "i \<in> set (snd (slice_array (t_audio_indexes (reset_pointer st)) p q))
           \<Longrightarrow> i < length (audio_name (data_dict g))"
proof -
  show "fst (slice_array (t_audio_indexes (reset_pointer st)) p q) = Int64"
    using st(1) by (simp add: slice_array_def reset_pointer_dtype)
  assume "i \<in> set (snd (slice_array (t_audio_indexes (reset_pointer st)) p q))"
  then have "i \<in> set (snd (t_audio_indexes (reset_pointer st)))"
    using set_py_slice by (fastforce simp: slice_array_def)
  then have "i \<in> set (snd (train_audio_indexes g))"
    using st(2) by (auto simp: reset_pointer_set)
  then show "i < length (audio_name (data_dict g))"
    by (rule init_train_bound(1)[OF init])
qed

lemma generate_train_ok:
  assumes init: "DataGenerator_init lb hf train_meta validate_meta classes scal bs rs = Inr g"
    and ne: "snd (train_audio_indexes g) \<noteq> []"
  shows "fst (t_audio_indexes (generate_train g)) = Int64"
    and "set (snd (t_audio_indexes (generate_train g))) \<subseteq> set (snd (train_audio_indexes g))"
  using init_train_dtype(1)[OF init ne]
  by (simp_all add: generate_train_fields shuffle_dtype shuffle_set)

lemma source_indexes_of_D:
  "source_indexes_of xs dd sources = Inr r \<Longrightarrow>
     r = (case source_label dd of
            None \<Rightarrow> []
          | Some sl \<Rightarrow> filter (\<lambda>i. sl ! i \<in> set sources) xs)"
proof (induction xs arbitrary: r)
  case Nil
  then show ?case by (simp split: option.splits)
next
  case (Cons x xs)
  then show ?case
    by (auto split: option.splits if_splits sum.splits)
qed


lemma source_indexes_of_subset:
  "source_indexes_of xs dd sources = Inr r \<Longrightarrow> set r \<subseteq> set xs"
  by (drule source_indexes_of_D) (auto split: option.splits)

lemma generate_validate_D:
  assumes "generate_validate g data_type sources max_iteration = Inr vst"
  shows "v_pointer vst = 0" and "v_iteration vst = 0" and "v_max_iteration vst = max_iteration"
    and "data_type = ''train'' \<or> data_type = ''validate''"
    and "data_type = ''train'' \<Longrightarrow> v_audio_indexes vst = train_audio_indexes g"
    and "data_type \<noteq> ''train'' \<Longrightarrow>
           v_audio_indexes vst = np_array (filtered_indexes g data_type sources)"
  using assms
  by (auto simp: generate_validate_def get_source_indexes_def filtered_indexes_def
      split: if_splits sum.splits dest!: source_indexes_of_D)

lemma validate_array_ok:
  assumes init: "DataGenerator_init lb hf train_meta validate_meta classes scal bs rs = Inr g"
    and gen: "generate_validate g data_type sources max_iteration = Inr vst"
    and ne: "snd (v_audio_indexes vst) \<noteq> []"
  shows "fst (v_audio_indexes vst) = Int64"
    and "i \<in> set (snd (v_audio_indexes vst)) \<Longrightarrow> i < length (audio_name (data_dict g))"
    and "v_pointer vst = 0" and "v_iteration vst = 0" and "v_max_iteration vst = max_iteration"
proof -
  show "v_pointer vst = 0" "v_iteration vst = 0" "v_max_iteration vst = max_iteration"
    using generate_validate_D(1-3)[OF gen] by simp_all
  have sub: "set (snd (v_audio_indexes vst)) \<subseteq>
        set (snd (train_audio_indexes g)) \<union> set (snd (validate_audio_indexes g))"
  proof (cases "data_type = ''train''")
    case True
    with generate_validate_D(5)[OF gen] show ?thesis by auto
  next
    case False
    have "set (filtered_indexes g data_type sources) \<subseteq> set (snd (validate_audio_indexes g))"
      using False by (auto simp: filtered_indexes_def split: option.splits)
    with generate_validate_D(6)[OF gen False] show ?thesis
      by (auto simp: snd_np_array)
  qed
  show "i < length (audio_name (data_dict g))" if "i \<in> set (snd (v_audio_indexes vst))"
    using that sub init_train_bound[OF init] by blast
  show "fst (v_audio_indexes vst) = Int64"
  proof (cases "data_type = ''train''")
    case True
    with generate_validate_D(5)[OF gen] ne init_train_dtype(1)[OF init]
    show ?thesis by simp
  next
    case False
    with generate_validate_D(6)[OF gen] ne show ?thesis
      by (simp add: np_array_def split: if_splits)
  qed
qed

subsection \<open>A store without labels\<close>

lemma init_unlabelled_target:
  assumes "DataGenerator_init lb hf train_meta validate_meta classes scal bs rs = Inr g"
    and "hf_scene_label hf = None"
  shows "target (data_dict g) = None"
  using load_hdf5_target[OF init_fields(3)[OF assms(1)]] assms(2) by simp

lemma ex_unlabelled_validate:
  "generate_validate ex_feeder_unlabelled ''validate'' [] None
     = Inr \<lparr> v_audio_indexes = (Float64, []), v_max_iteration = None,
             v_iteration = 0, v_pointer = 0 \<rparr>"
  by (simp add: generate_validate_def get_source_indexes_def ex_feeder_unlabelled_def
      ex_feeder_def ex_dd_def np_array_def)

text \<open>
  The claim C10 as it is written fails where the validation stream has nothing to
  walk: on the store without labels, with mode "validate" and an empty source list,
  the first request ends the stream (zero batches, no error at all).
\<close>

theorem unlabelled_validate_stops_counterexample:
  "hf_scene_label ex_hf_unlabelled = None \<and>
   DataGenerator_init ex_lb_to_idx ex_hf_unlabelled ex_train_meta ex_validate_meta 2 ex_scalar 2 ex_rs
     = Inr ex_feeder_unlabelled \<and>
   generate_validate ex_feeder_unlabelled ''validate'' [] None
     = Inr \<lparr> v_audio_indexes = (Float64, []), v_max_iteration = None,
             v_iteration = 0, v_pointer = 0 \<rparr> \<and>
   validate_next ex_feeder_unlabelled
     \<lparr> v_audio_indexes = (Float64, []), v_max_iteration = None,
       v_iteration = 0, v_pointer = 0 \<rparr> = Stop \<and>
   validate_stream 1 ex_feeder_unlabelled ''validate'' [] None = Some ([], None)"
  using ex_init_unlabelled ex_unlabelled_validate
  by (simp add: ex_hf_unlabelled_def validate_stream_def validate_next_def)

text \<open>
  C10, amended. For every feeder built from a store without a \<open>scene_label\<close>
  column neither stream ever yields a batch, whatever its frame. When the table and
  the normalisation vectors are well-formed, the first request of the training
  stream over a non-empty train index set fails with the missing-key error on
  \<open>target\<close>, and so does the first request of the validation stream whenever the
  statements before its loop succeed and the loop is entered (the index set is not
  empty and the maximum iteration count is not 0). When those statements succeed
  and the loop is not entered (the index set is empty or the maximum iteration
  count is 0), the first request ends the validation stream: zero batches and no
  error.
\<close>

theorem unlabelled_store_yields_nothing:
  assumes init: "DataGenerator_init lb hf train_meta validate_meta classes scal bs rs = Inr g"
    and nolabel: "hf_scene_label hf = None"
  shows "(\<forall>st y. train_next g st \<noteq> Inr y) \<and>
         (\<forall>vst y. validate_next g vst \<noteq> Yield y) \<and>
         (table_ok (data_dict g) \<and> scalar_ok g \<and> snd (train_audio_indexes g) \<noteq> []
            \<longrightarrow> train_next g (generate_train g) = Inl (KeyError ''target'')) \<and>
         (table_ok (data_dict g) \<and> scalar_ok g \<and>
          generate_validate g data_type sources max_iteration = Inr vst \<and>
          snd (v_audio_indexes vst) \<noteq> [] \<and> max_iteration \<noteq> Some 0
            \<longrightarrow> validate_next g vst = Raise (KeyError ''target'')) \<and>
         (generate_validate g data_type sources max_iteration = Inr vst \<and>
          (snd (v_audio_indexes vst) = [] \<or> max_iteration = Some 0)
            \<longrightarrow> validate_next g vst = Stop)"
proof -
  have none: "target (data_dict g) = None"
    using init nolabel by (rule init_unlabelled_target)
  have a: "\<forall>st y. train_next g st \<noteq> Inr y"
    using make_batch_target_None[OF none]
    by (auto simp: train_next_def Let_def split: sum.splits)
  have b: "\<forall>vst y. validate_next g vst \<noteq> Yield y"
    using make_batch_target_None[OF none]
    by (auto simp: validate_next_def Let_def split: sum.splits)
  have c: "train_next g (generate_train g) = Inl (KeyError ''target'')"
    if ok: "table_ok (data_dict g)" "scalar_ok g" and ne: "snd (train_audio_indexes g) \<noteq> []"
  proof -
    let ?st = "generate_train g"
    let ?idx = "slice_array (t_audio_indexes (reset_pointer ?st)) (t_pointer (reset_pointer ?st))
                  (t_pointer (reset_pointer ?st) + batch_size g)"
    have "make_batch g ?idx = Inl (KeyError ''target'')"
      using ok none train_slice_ok[OF init ne generate_train_ok[OF init ne]]
      by (intro make_batch_KeyError)
    then show ?thesis by (simp add: train_next_def Let_def)
  qed
  have d: "validate_next g vst = Raise (KeyError ''target'')"
    if ok: "table_ok (data_dict g)" "scalar_ok g"
      and gen: "generate_validate g data_type sources max_iteration = Inr vst"
      and ne: "snd (v_audio_indexes vst) \<noteq> []" and mi: "max_iteration \<noteq> Some 0"
  proof -
    note v = validate_array_ok[OF init gen ne]
    let ?idx = "slice_array (v_audio_indexes vst) (v_pointer vst) (v_pointer vst + batch_size g)"
    have "fst ?idx = Int64" using v(1) by (simp add: slice_array_def)
    moreover have "i < length (audio_name (data_dict g))" if "i \<in> set (snd ?idx)" for i
    proof -
      from that have "i \<in> set (snd (v_audio_indexes vst))"
        using set_py_slice by (fastforce simp: slice_array_def)
      then show ?thesis by (rule v(2))
    qed
    ultimately have "make_batch g ?idx = Inl (KeyError ''target'')"
      using ok none by (intro make_batch_KeyError)
    moreover have "Some (v_iteration vst) \<noteq> v_max_iteration vst"
      using v(4,5) mi by auto
    moreover have "\<not> v_pointer vst \<ge> int (length (snd (v_audio_indexes vst)))"
      using v(3) ne by simp
    ultimately show ?thesis by (simp add: validate_next_def Let_def)
  qed
  have e: "validate_next g vst = Stop"
    if gen: "generate_validate g data_type sources max_iteration = Inr vst"
      and skip: "snd (v_audio_indexes vst) = [] \<or> max_iteration = Some 0"
  proof -
    note v = generate_validate_D(1-3)[OF gen]
    from skip show ?thesis
    proof
      assume "snd (v_audio_indexes vst) = []"
      then show ?thesis using v by (simp add: validate_next_def)
    next
      assume "max_iteration = Some 0"
      then show ?thesis using v by (simp add: validate_next_def)
    qed
  qed
  from a b c d e show ?thesis by blast
qed

lemma ex_unlabelled_ok:
  "table_ok (data_dict ex_feeder_unlabelled)" "scalar_ok ex_feeder_unlabelled"
  "snd (train_audio_indexes ex_feeder_unlabelled) \<noteq> []"
  by (simp_all add: table_ok_def scalar_ok_def ex_feeder_unlabelled_def ex_feeder_def
      ex_dd_def ex_scalar_def)

lemma ex_unlabelled_train_mode:
  "generate_validate ex_feeder_unlabelled ''train'' [] None
     = Inr \<lparr> v_audio_indexes = (Int64, [0, 1, 2, 3, 4]), v_max_iteration = None,
             v_iteration = 0, v_pointer = 0 \<rparr>"
  by (simp add: generate_validate_def ex_feeder_unlabelled_def ex_feeder_def)

theorem unlabelled_store_yields_nothing_witness:
  "DataGenerator_init ex_lb_to_idx ex_hf_unlabelled ex_train_meta ex_validate_meta 2 ex_scalar 2 ex_rs
     = Inr ex_feeder_unlabelled \<and>
   hf_scene_label ex_hf_unlabelled = None \<and>
   train_next ex_feeder_unlabelled (generate_train ex_feeder_unlabelled)
     = Inl (KeyError ''target'') \<and>
   validate_next ex_feeder_unlabelled
     \<lparr> v_audio_indexes = (Int64, [0, 1, 2, 3, 4]), v_max_iteration = None,
       v_iteration = 0, v_pointer = 0 \<rparr> = Raise (KeyError ''target'') \<and>
   validate_next ex_feeder_unlabelled
     \<lparr> v_audio_indexes = (Float64, []), v_max_iteration = None,
       v_iteration = 0, v_pointer = 0 \<rparr> = Stop"
proof -
  have nolabel: "hf_scene_label ex_hf_unlabelled = None"
    by (simp add: ex_hf_unlabelled_def)
  note inst = unlabelled_store_yields_nothing[OF ex_init_unlabelled nolabel,
      of "''train''" "[]" None
         "\<lparr> v_audio_indexes = (Int64, [0, 1, 2, 3, 4]), v_max_iteration = None,
            v_iteration = 0, v_pointer = 0 \<rparr>"]
  note inst' = unlabelled_store_yields_nothing[OF ex_init_unlabelled nolabel,
      of "''validate''" "[]" None
         "\<lparr> v_audio_indexes = (Float64, []), v_max_iteration = None,
            v_iteration = 0, v_pointer = 0 \<rparr>"]
  have 1: "train_next ex_feeder_unlabelled (generate_train ex_feeder_unlabelled)
      = Inl (KeyError ''target'')"
    using inst ex_unlabelled_ok by simp
  have 2: "validate_next ex_feeder_unlabelled
     \<lparr> v_audio_indexes = (Int64, [0, 1, 2, 3, 4]), v_max_iteration = None,
       v_iteration = 0, v_pointer = 0 \<rparr> = Raise (KeyError ''target'')"
    using inst ex_unlabelled_ok ex_unlabelled_train_mode by simp
  have 3: "validate_next ex_feeder_unlabelled
     \<lparr> v_audio_indexes = (Float64, []), v_max_iteration = None,
       v_iteration = 0, v_pointer = 0 \<rparr> = Stop"
    using inst' ex_unlabelled_validate by simp
  from ex_init_unlabelled nolabel 1 2 3 show ?thesis by simp
qed

subsection \<open>The training stream, pass by pass\<close>

text \<open>Chunk \<open>i\<close> of an array for a batch size.\<close>

lemma concat_chunks:
  "concat (map (\<lambda>i. take b (drop (i * b) xs)) [0..<k]) = take (k * b) xs"
proof (induction k)
  case 0
  then show ?case by simp
next
  case (Suc k)
  have "take (k * b + b) xs = take (k * b) xs @ take b (drop (k * b) xs)"
    by (rule take_add)
  with Suc show ?case by (simp add: add.commute)
qed

lemma ceil_div_less_iff: "0 < b \<Longrightarrow> i < ceil_div n b \<longleftrightarrow> i * b < n"
proof -
  assume b: "0 < b"
  have "i < ceil_div n b \<longleftrightarrow> Suc i \<le> (n + b - 1) div b"
    by (simp add: ceil_div_def Suc_le_eq)
  also have "\<dots> \<longleftrightarrow> Suc i * b \<le> n + b - 1"
    using b by (rule less_eq_div_iff_mult_less_eq)
  also have "\<dots> \<longleftrightarrow> i * b < n" using b by auto
  finally show ?thesis .
qed

lemma ceil_div_covers: "0 < b \<Longrightarrow> n \<le> ceil_div n b * b"
  using ceil_div_less_iff[of b "ceil_div n b" n] by (simp add: not_less)

lemma ceil_div_pos: "0 < b \<Longrightarrow> 0 < n \<Longrightarrow> 0 < ceil_div n b"
  using ceil_div_less_iff[of b 0 n] by simp

lemma train_next_slice:
  assumes nxt: "train_next g st = Inr (idx, b, st')"
    and b: "0 \<le> batch_size g"
    and p: "t_pointer st = int j * batch_size g"
    and lt: "j * nat (batch_size g) < length (snd (t_audio_indexes st))"
  shows "idx = (fst (t_audio_indexes st),
                take (nat (batch_size g)) (drop (j * nat (batch_size g)) (snd (t_audio_indexes st))))"
    and "st' = st\<lparr> t_pointer := int (Suc j) * batch_size g \<rparr>"
proof -
  have nn: "int (j * nat (batch_size g)) = int j * batch_size g"
    using b by simp
  have "t_pointer st < int (length (snd (t_audio_indexes st)))"
    using lt p nn by linarith
  then have r: "reset_pointer st = st" by (rule reset_pointer_id)
  have p0: "0 \<le> t_pointer st" using p b by simp
  have np: "nat (t_pointer st) = j * nat (batch_size g)"
    using p nn by (metis nat_int)
  show "idx = (fst (t_audio_indexes st),
                take (nat (batch_size g)) (drop (j * nat (batch_size g)) (snd (t_audio_indexes st))))"
    using train_next_D(2)[OF nxt] r py_slice_nat[OF p0 b] np
    by (simp add: slice_array_def)
  show "st' = st\<lparr> t_pointer := int (Suc j) * batch_size g \<rparr>"
    using train_next_D(3)[OF nxt] r p by (simp add: algebra_simps)
qed

lemma train_run_chunks:
  assumes "train_run g m st = Inr (ys, st')"
    and "0 \<le> batch_size g"
    and "t_pointer st = int j * batch_size g"
    and "\<And>i. j \<le> i \<Longrightarrow> i < j + m \<Longrightarrow> i * nat (batch_size g) < length (snd (t_audio_indexes st))"
  shows "map fst ys = map (\<lambda>i. (fst (t_audio_indexes st),
                 take (nat (batch_size g)) (drop (i * nat (batch_size g)) (snd (t_audio_indexes st)))))
               [j..<j + m] \<and>
         st' = st\<lparr> t_pointer := int (j + m) * batch_size g \<rparr>"
  using assms
proof (induction m arbitrary: st j ys)
  case 0
  then show ?case by simp
next
  case (Suc m)
  from Suc.prems(1) obtain idx b st1 ys1 where
    nxt: "train_next g st = Inr (idx, b, st1)" and
    run: "train_run g m st1 = Inr (ys1, st')" and
    ys: "ys = (idx, b) # ys1"
    by (auto split: sum.splits)
  have lt: "j * nat (batch_size g) < length (snd (t_audio_indexes st))"
    using Suc.prems(4)[of j] by simp
  note s = train_next_slice[OF nxt Suc.prems(2) Suc.prems(3) lt]
  have arr: "t_audio_indexes st1 = t_audio_indexes st" using s(2) by simp
  have p1: "t_pointer st1 = int (Suc j) * batch_size g" using s(2) by simp
  have "map fst ys1 = map (\<lambda>i. (fst (t_audio_indexes st1),
                 take (nat (batch_size g)) (drop (i * nat (batch_size g)) (snd (t_audio_indexes st1)))))
               [Suc j..<Suc j + m] \<and>
         st' = st1\<lparr> t_pointer := int (Suc j + m) * batch_size g \<rparr>"
    using Suc.prems(4) by (intro Suc.IH[OF run Suc.prems(2) p1]) (simp add: arr)
  then show ?case
    using ys s arr by (simp add: upt_rec[of j])
qed

lemma train_run_Suc_D:
  assumes "train_run g (Suc m) st = Inr (ys, st'')"
  obtains idx b st1 ys1 where "train_next g st = Inr (idx, b, st1)"
    and "train_run g m st1 = Inr (ys1, st'')" and "ys = (idx, b) # ys1"
  using assms by (auto split: sum.splits)

lemma train_run_add:
  "train_run g (m1 + m2) st = Inr (ys, st'') \<Longrightarrow>
     \<exists>ys1 st1 ys2. train_run g m1 st = Inr (ys1, st1) \<and>
        train_run g m2 st1 = Inr (ys2, st'') \<and> ys = ys1 @ ys2"
proof (induction m1 arbitrary: st ys)
  case 0
  then show ?case by simp
next
  case (Suc m1)
  from Suc.prems have "train_run g (Suc (m1 + m2)) st = Inr (ys, st'')" by simp
  then obtain idx b st1 ys' where
    nxt: "train_next g st = Inr (idx, b, st1)" and
    run: "train_run g (m1 + m2) st1 = Inr (ys', st'')" and
    ys: "ys = (idx, b) # ys'"
    by (rule train_run_Suc_D)
  from Suc.IH[OF run] obtain ys1 st2 ys2 where
    "train_run g m1 st1 = Inr (ys1, st2)" "train_run g m2 st2 = Inr (ys2, st'')" "ys' = ys1 @ ys2"
    by blast
  with nxt ys have "train_run g (Suc m1) st = Inr ((idx, b) # ys1, st2) \<and>
      train_run g m2 st2 = Inr (ys2, st'') \<and> ys = ((idx, b) # ys1) @ ys2"
    by simp
  then show ?case by blast
qed

lemma train_run_length: "train_run g m st = Inr (ys, st') \<Longrightarrow> length ys = m"
  by (induction m arbitrary: st ys) (auto split: sum.splits)

lemma train_run_made:
  "train_run g m st = Inr (ys, st') \<Longrightarrow> y \<in> set ys \<Longrightarrow> make_batch g (fst y) = Inr (snd y)"
proof (induction m arbitrary: st ys)
  case 0
  then show ?case by simp
next
  case (Suc m)
  from Suc.prems(1) obtain idx b st1 ys1 where
    nxt: "train_next g st = Inr (idx, b, st1)" and
    run: "train_run g m st1 = Inr (ys1, st')" and
    ys: "ys = (idx, b) # ys1"
    by (rule train_run_Suc_D)
  from Suc.prems(2) ys consider "y = (idx, b)" | "y \<in> set ys1" by auto
  then show ?case
  proof cases
    case 1
    with train_next_D(1)[OF nxt] show ?thesis by simp
  next
    case 2
    with Suc.IH[OF run] show ?thesis .
  qed
qed

lemma train_next_reset: "train_next g (reset_pointer st) = train_next g st"
proof -
  have "reset_pointer (reset_pointer st) = reset_pointer st"
  proof (cases "t_pointer st \<ge> int (length (snd (t_audio_indexes st)))")
    case True
    show ?thesis
    proof (cases "snd (t_audio_indexes st) = []")
      case True
      then show ?thesis
        by (simp add: reset_pointer_def shuffle_def)
    next
      case False
      then have "t_pointer (reset_pointer st) < int (length (snd (t_audio_indexes (reset_pointer st))))"
        using True by (simp add: reset_pointer_length) (simp add: reset_pointer_def case_prod_beta)
      then show ?thesis by (rule reset_pointer_id)
    qed
  next
    case False
    then show ?thesis by (simp add: reset_pointer_def)
  qed
  then show ?thesis by (simp add: train_next_def)
qed

lemma train_run_reset:
  "train_run g (Suc m) (reset_pointer st) = train_run g (Suc m) st"
  by (simp add: train_next_reset)

lemma reset_pointer_pointer:
  assumes "snd (t_audio_indexes st) \<noteq> []"
    and "t_pointer st = 0 \<or> int (length (snd (t_audio_indexes st))) \<le> t_pointer st"
  shows "t_pointer (reset_pointer st) = 0"
  using assms by (auto simp: reset_pointer_def case_prod_beta)

text \<open>One pass, from a frame that stands at a pass boundary.\<close>

lemma pass_run:
  assumes b: "1 \<le> batch_size g"
    and ne: "snd (t_audio_indexes st) \<noteq> []"
    and bd: "t_pointer st = 0 \<or> int (length (snd (t_audio_indexes st))) \<le> t_pointer st"
    and m: "0 < m" "m \<le> ceil_div (length (snd (t_audio_indexes st))) (nat (batch_size g))"
    and run: "train_run g m st = Inr (ys, st')"
  shows "map fst ys = map (\<lambda>i. (fst (t_audio_indexes (reset_pointer st)),
                 take (nat (batch_size g))
                   (drop (i * nat (batch_size g)) (snd (t_audio_indexes (reset_pointer st))))))
               [0..<m]"
    and "st' = (reset_pointer st)\<lparr> t_pointer := int m * batch_size g \<rparr>"
proof -
  let ?r = "reset_pointer st"
  from m(1) obtain m' where m': "m = Suc m'" by (cases m) auto
  have run': "train_run g m ?r = Inr (ys, st')"
    using run unfolding m' by (simp only: train_run_reset)
  have p: "t_pointer ?r = int 0 * batch_size g"
    using reset_pointer_pointer[OF ne bd] by simp
  have B: "0 < nat (batch_size g)" using b by simp
  have lt: "i * nat (batch_size g) < length (snd (t_audio_indexes ?r))" if "i < 0 + m" for i
  proof -
    from that m(2) have "i < ceil_div (length (snd (t_audio_indexes st))) (nat (batch_size g))"
      by simp
    then show ?thesis
      using B by (simp add: ceil_div_less_iff reset_pointer_length)
  qed
  have b0: "0 \<le> batch_size g" using b by simp
  from train_run_chunks[OF run' b0 p lt]
  show "map fst ys = map (\<lambda>i. (fst (t_audio_indexes ?r),
                 take (nat (batch_size g)) (drop (i * nat (batch_size g)) (snd (t_audio_indexes ?r)))))
               [0..<m]"
    and "st' = ?r\<lparr> t_pointer := int m * batch_size g \<rparr>"
    by simp_all
qed

lemma epoch_perm_length:
  "length (snd (fst (epoch_perm g e))) = length (snd (train_audio_indexes g))"
  by (induction e) (simp_all add: shuffle_length)

lemma epoch_perm_mset:
  "mset (snd (fst (epoch_perm g e))) = mset (snd (train_audio_indexes g))"
  by (induction e) (simp_all add: shuffle_mset)

lemma epoch_perm_dtype:
  "fst (fst (epoch_perm g e)) = fst (train_audio_indexes g)"
  by (induction e) (simp_all add: shuffle_dtype)

lemma reset_pointer_shuffles:
  assumes "int (length (snd (t_audio_indexes st))) \<le> t_pointer st"
  shows "t_audio_indexes (reset_pointer st) = fst (shuffle (t_audio_indexes st) (t_random_state st))"
    and "t_random_state (reset_pointer st) = snd (shuffle (t_audio_indexes st) (t_random_state st))"
  using assms by (simp_all add: reset_pointer_def case_prod_beta)

text \<open>The frame after \<open>e\<close> whole passes.\<close>

lemma pass_boundary:
  assumes b: "1 \<le> batch_size g"
    and ne: "snd (train_audio_indexes g) \<noteq> []"
    and run: "train_run g (e * epoch_len g) (generate_train g) = Inr (ys, st)"
  shows "t_audio_indexes (reset_pointer st) = fst (epoch_perm g e) \<and>
         t_random_state (reset_pointer st) = snd (epoch_perm g e) \<and>
         (t_pointer st = 0 \<or> int (length (snd (t_audio_indexes st))) \<le> t_pointer st) \<and>
         length (snd (t_audio_indexes st)) = length (snd (train_audio_indexes g))"
  using run
proof (induction e arbitrary: ys st)
  case 0
  then have st: "st = generate_train g" by simp
  have "t_pointer st < int (length (snd (t_audio_indexes st)))"
    using ne by (simp add: st generate_train_fields shuffle_length)
  then have "reset_pointer st = st" by (rule reset_pointer_id)
  then show ?case
    by (simp add: st generate_train_fields shuffle_length)
next
  case (Suc e)
  let ?k = "epoch_len g"
  let ?n = "length (snd (train_audio_indexes g))"
  have B: "0 < nat (batch_size g)" using b by simp
  have n: "0 < ?n" using ne by simp
  have k: "0 < ?k" unfolding epoch_len_def using B n by (rule ceil_div_pos)
  from Suc.prems have "train_run g (e * ?k + ?k) (generate_train g) = Inr (ys, st)"
    by (simp add: add.commute)
  from train_run_add[OF this] obtain ys1 st1 ys2 where
    run1: "train_run g (e * ?k) (generate_train g) = Inr (ys1, st1)" and
    run2: "train_run g ?k st1 = Inr (ys2, st)"
    by blast
  note ih = Suc.IH[OF run1]
  have len1: "length (snd (t_audio_indexes st1)) = ?n" using ih by simp
  have ne1: "snd (t_audio_indexes st1) \<noteq> []" using len1 n by auto
  have bd1: "t_pointer st1 = 0 \<or> int (length (snd (t_audio_indexes st1))) \<le> t_pointer st1"
    using ih by blast
  have kk: "?k \<le> ceil_div (length (snd (t_audio_indexes st1))) (nat (batch_size g))"
    by (simp add: len1 epoch_len_def)
  have st: "st = (reset_pointer st1)\<lparr> t_pointer := int ?k * batch_size g \<rparr>"
    using pass_run(2)[OF b ne1 bd1 k kk run2] .
  have arr: "t_audio_indexes st = fst (epoch_perm g e)"
    and rs: "t_random_state st = snd (epoch_perm g e)"
    using ih by (simp_all add: st)
  have len: "length (snd (t_audio_indexes st)) = ?n"
    by (simp add: arr epoch_perm_length)
  have "?n \<le> ?k * nat (batch_size g)"
    unfolding epoch_len_def using B by (rule ceil_div_covers)
  then have "int ?n \<le> int (?k * nat (batch_size g))" by (simp only: of_nat_le_iff)
  also have "\<dots> = int ?k * batch_size g" using b by simp
  finally have ge: "int (length (snd (t_audio_indexes st))) \<le> t_pointer st"
    by (simp add: len) (simp add: st)
  show ?case
    using reset_pointer_shuffles[OF ge] ge len by (simp add: arr rs)
qed

text \<open>The slice behind the \<open>i\<close>-th batch of the training stream.\<close>

lemma train_run_index:
  assumes b: "1 \<le> batch_size g"
    and ne: "snd (train_audio_indexes g) \<noteq> []"
    and run: "train_run g m (generate_train g) = Inr (ys, st')"
    and i: "i < m"
  shows "snd (fst (ys ! i)) =
           take (nat (batch_size g))
             (drop ((i mod epoch_len g) * nat (batch_size g))
                (snd (fst (epoch_perm g (i div epoch_len g)))))"
proof -
  let ?k = "epoch_len g"
  let ?n = "length (snd (train_audio_indexes g))"
  let ?e = "i div ?k" and ?r = "i mod ?k"
  have B: "0 < nat (batch_size g)" using b by simp
  have n: "0 < ?n" using ne by simp
  have k: "0 < ?k" unfolding epoch_len_def using B n by (rule ceil_div_pos)
  have r: "?r < ?k" using k by simp
  have isplit: "i = ?e * ?k + ?r" by simp
  define rest where "rest = m - Suc i"
  have m: "m = ?e * ?k + (Suc ?r + rest)" using i isplit unfolding rest_def by linarith
  from run have "train_run g (?e * ?k + (Suc ?r + rest)) (generate_train g) = Inr (ys, st')"
    using m by simp
  from train_run_add[OF this] obtain ys1 st1 ys23 where
    run1: "train_run g (?e * ?k) (generate_train g) = Inr (ys1, st1)" and
    run23: "train_run g (Suc ?r + rest) st1 = Inr (ys23, st')" and
    ys: "ys = ys1 @ ys23"
    by blast
  from train_run_add[OF run23] obtain ys2 st2 ys3 where
    run2: "train_run g (Suc ?r) st1 = Inr (ys2, st2)" and
    ys23: "ys23 = ys2 @ ys3"
    by blast
  have l1: "length ys1 = ?e * ?k" using run1 by (rule train_run_length)
  have l2: "length ys2 = Suc ?r" using run2 by (rule train_run_length)
  have nth: "ys ! i = ys2 ! ?r"
  proof -
    have "ys ! i = (ys1 @ ys2 @ ys3) ! (length ys1 + ?r)"
      using ys ys23 l1 isplit by simp
    also have "\<dots> = (ys2 @ ys3) ! ?r" by (rule nth_append_length_plus)
    also have "\<dots> = ys2 ! ?r" using l2 by (simp add: nth_append)
    finally show ?thesis .
  qed
  note bnd = pass_boundary[OF b ne run1]
  have len1: "length (snd (t_audio_indexes st1)) = ?n" using bnd by simp
  have ne1: "snd (t_audio_indexes st1) \<noteq> []" using len1 n by auto
  have bd1: "t_pointer st1 = 0 \<or> int (length (snd (t_audio_indexes st1))) \<le> t_pointer st1"
    using bnd by blast
  have kk: "Suc ?r \<le> ceil_div (length (snd (t_audio_indexes st1))) (nat (batch_size g))"
    using r by (simp add: len1 epoch_len_def)
  have "map fst ys2 = map (\<lambda>i. (fst (t_audio_indexes (reset_pointer st1)),
                 take (nat (batch_size g))
                   (drop (i * nat (batch_size g)) (snd (t_audio_indexes (reset_pointer st1))))))
               [0..<Suc ?r]"
    by (rule pass_run(1)[OF b ne1 bd1 _ kk run2]) simp
  then have "map fst ys2 ! ?r = map (\<lambda>i. (fst (fst (epoch_perm g ?e)),
                 take (nat (batch_size g))
                   (drop (i * nat (batch_size g)) (snd (fst (epoch_perm g ?e))))))
               [0..<Suc ?r] ! ?r"
    using bnd by simp
  then have "fst (ys2 ! ?r) = (fst (fst (epoch_perm g ?e)),
                 take (nat (batch_size g))
                   (drop (?r * nat (batch_size g)) (snd (fst (epoch_perm g ?e)))))"
    using l2 by (simp add: nth_append del: upt_Suc)
  then show ?thesis using nth by simp
qed

subsection \<open>Each pass yields the train index set once\<close>

lemma ex_six_batches:
  "map_sum id (\<lambda>(ys, st). map fst ys) (train_run ex_feeder 6 (generate_train ex_feeder))
     = Inr [(Int64, [1, 0]), (Int64, [4, 2]), (Int64, [3]),
            (Int64, [3, 2]), (Int64, [1, 4]), (Int64, [0])]"
  by code_simp

lemma ex_feeder_simps:
  "batch_size ex_feeder = 2" "train_audio_indexes ex_feeder = (Int64, [0, 1, 2, 3, 4])"
  "epoch_len ex_feeder = 3"
  by (simp_all add: ex_feeder_def epoch_len_def ceil_div_def)

text \<open>
  C1. In the training stream over a non-empty train index set, with a batch size of
  at least 1 (so that passes exist), the row indices behind the batches of pass
  \<open>e\<close>, taken in the order of the yields, are exactly the order \<open>epoch_perm g e\<close>
  of the index set: the first shuffle for pass 0 and, for every later pass, the
  shuffle of the order of the pass before, made when the pointer has reached or
  passed the length of the set. As a multiset they are the train index set, every
  entry once, none missing.
\<close>

theorem training_pass_is_permutation:
  assumes b: "1 \<le> batch_size g"
    and ne: "snd (train_audio_indexes g) \<noteq> []"
    and run: "train_run g (Suc e * epoch_len g) (generate_train g) = Inr (ys, st')"
  shows "yielded_indexes (take (epoch_len g) (drop (e * epoch_len g) ys))
           = snd (fst (epoch_perm g e)) \<and>
         mset (yielded_indexes (take (epoch_len g) (drop (e * epoch_len g) ys)))
           = mset (snd (train_audio_indexes g))"
proof -
  let ?k = "epoch_len g" and ?B = "nat (batch_size g)"
  let ?P = "snd (fst (epoch_perm g e))"
  let ?sub = "take ?k (drop (e * ?k) ys)"
  have B: "0 < ?B" using b by simp
  have n: "0 < length (snd (train_audio_indexes g))" using ne by simp
  have k: "0 < ?k" unfolding epoch_len_def using B n by (rule ceil_div_pos)
  have len: "length ys = Suc e * ?k" using run by (rule train_run_length)
  have lsub: "length ?sub = ?k" using len by simp
  have "map (\<lambda>y. snd (fst y)) ?sub = map (\<lambda>i. take ?B (drop (i * ?B) ?P)) [0..<?k]"
  proof (rule nth_equalityI)
    show "length (map (\<lambda>y. snd (fst y)) ?sub) = length (map (\<lambda>i. take ?B (drop (i * ?B) ?P)) [0..<?k])"
      using lsub by simp
  next
    fix i assume "i < length (map (\<lambda>y. snd (fst y)) ?sub)"
    then have i: "i < ?k" using lsub by simp
    then have lt: "e * ?k + i < Suc e * ?k" by simp
    have "?sub ! i = ys ! (e * ?k + i)" using i len by simp
    moreover have "(e * ?k + i) mod ?k = i" "(e * ?k + i) div ?k = e" using i by simp_all
    ultimately have "snd (fst (?sub ! i)) = take ?B (drop (i * ?B) ?P)"
      using train_run_index[OF b ne run lt] by simp
    then show "map (\<lambda>y. snd (fst y)) ?sub ! i = map (\<lambda>i. take ?B (drop (i * ?B) ?P)) [0..<?k] ! i"
      using i lsub by simp
  qed
  then have "yielded_indexes ?sub = take (?k * ?B) ?P"
    by (simp add: yielded_indexes_def concat_chunks)
  moreover have "length ?P \<le> ?k * ?B"
    unfolding epoch_len_def epoch_perm_length using B by (rule ceil_div_covers)
  ultimately have "yielded_indexes ?sub = ?P" by simp
  then show ?thesis by (simp add: epoch_perm_mset)
qed

theorem training_pass_is_permutation_witness:
  "\<exists>ys st'. train_run ex_feeder (Suc 1 * epoch_len ex_feeder) (generate_train ex_feeder)
       = Inr (ys, st') \<and>
     map fst ys = [(Int64, [1, 0]), (Int64, [4, 2]), (Int64, [3]),
                   (Int64, [3, 2]), (Int64, [1, 4]), (Int64, [0])] \<and>
     yielded_indexes (take 3 (drop 3 ys)) = [3, 2, 1, 4, 0] \<and>
     mset (yielded_indexes (take 3 (drop 3 ys))) = mset [0, 1, 2, 3, 4]"
proof -
  from ex_six_batches obtain ys st' where
    run: "train_run ex_feeder 6 (generate_train ex_feeder) = Inr (ys, st')" and
    ys: "map fst ys = [(Int64, [1, 0]), (Int64, [4, 2]), (Int64, [3]),
                       (Int64, [3, 2]), (Int64, [1, 4]), (Int64, [0])]"
    by (cases "train_run ex_feeder 6 (generate_train ex_feeder)") auto
  have run': "train_run ex_feeder (Suc 1 * epoch_len ex_feeder) (generate_train ex_feeder)
      = Inr (ys, st')"
    using run by (simp add: ex_feeder_simps)
  have yi: "yielded_indexes (take 3 (drop 3 ys)) = [3, 2, 1, 4, 0]"
    using ys by (auto simp: yielded_indexes_def map_eq_Cons_conv)
  have ms: "mset (yielded_indexes (take 3 (drop 3 ys))) = mset [0, 1, 2, 3, 4]"
  proof -
    have "1 \<le> batch_size ex_feeder" "snd (train_audio_indexes ex_feeder) \<noteq> []"
      by (simp_all add: ex_feeder_simps)
    from training_pass_is_permutation[OF this run', THEN conjunct2]
    have "mset (yielded_indexes (take 3 (drop (1 * 3) ys))) = mset [0, 1, 2, 3, 4]"
      by (simp only: ex_feeder_simps snd_conv)
    then show ?thesis by (simp only: mult_1)
  qed
  show ?thesis
    by (intro exI[of _ ys] exI[of _ st'] conjI) (fact run' ys yi ms)+
qed

subsection \<open>The rows of a training batch\<close>

lemma chunk_length:
  assumes B: "0 < B" and q: "q < ceil_div n B"
  shows "min B (n - q * B) = (if Suc q = ceil_div n B \<and> n mod B \<noteq> 0 then n mod B else B)"
proof -
  have lo: "q * B < n" using q B by (simp add: ceil_div_less_iff)
  show ?thesis
  proof (cases "Suc q < ceil_div n B")
    case True
    then have "Suc q * B < n" using B by (simp add: ceil_div_less_iff)
    then have "B \<le> n - q * B" by simp
    with True show ?thesis by simp
  next
    case False
    with q have last: "Suc q = ceil_div n B" by simp
    have hi: "n \<le> Suc q * B" unfolding last using B by (rule ceil_div_covers)
    then have le: "n - q * B \<le> B" by simp
    show ?thesis
    proof (cases "n mod B = 0")
      case True
      then have "B dvd n" by (simp add: mod_eq_0_iff_dvd)
      then obtain c where c: "n = c * B" unfolding dvd_def by (auto simp: mult.commute)
      have "q < c" using lo c B by simp
      moreover have "c \<le> Suc q"
      proof -
        from hi c have "c * B \<le> Suc q * B" by simp
        with B show ?thesis by (simp only: mult_le_cancel2)
      qed
      ultimately have "c = Suc q" by simp
      with c have "n - q * B = B" by simp
      with True show ?thesis by simp
    next
      case nz: False
      have "n \<noteq> Suc q * B" using nz by auto
      with hi have up: "n < B * Suc q" by (simp add: mult.commute)
      have "B * q \<le> n" using lo by (simp add: mult.commute)
      then have "n div B = q" using up by (rule div_nat_eqI)
      then have "n mod B = n - q * B" by (simp add: modulo_nat_def)
      with nz last le show ?thesis by simp
    qed
  qed
qed

text \<open>
  C7. In the training stream over a non-empty train index set every yielded batch
  has exactly \<open>batch_size\<close> rows (names, feature rows and target rows alike), except
  the last batch of a pass when the length of the set is not a multiple of the batch
  size: that batch has the remaining \<open>n mod batch_size\<close> rows (a remainder, so
  fewer than \<open>batch_size\<close>), because the slice stops at the end of the set and the reshuffle
  waits for the next request. So a pass has exactly one short batch, its last one.
  The batch size is a size: it is not negative.
\<close>

theorem training_batch_rows:
  assumes b: "0 \<le> batch_size g"
    and ne: "snd (train_audio_indexes g) \<noteq> []"
    and run: "train_run g m (generate_train g) = Inr (ys, st')"
    and i: "i < m"
  shows "length (b_audio_name (snd (ys ! i))) = length (snd (fst (ys ! i))) \<and>
         length (b_feature (snd (ys ! i))) = length (snd (fst (ys ! i))) \<and>
         length (b_target (snd (ys ! i))) = length (snd (fst (ys ! i))) \<and>
         length (snd (fst (ys ! i))) =
           (if Suc (i mod epoch_len g) = epoch_len g \<and>
               length (snd (train_audio_indexes g)) mod nat (batch_size g) \<noteq> 0
            then length (snd (train_audio_indexes g)) mod nat (batch_size g)
            else nat (batch_size g))"
proof -
  let ?k = "epoch_len g" and ?B = "nat (batch_size g)"
  let ?n = "length (snd (train_audio_indexes g))"
  have len: "length ys = m" using run by (rule train_run_length)
  then have mem: "ys ! i \<in> set ys" using i by simp
  note rows = make_batch_rows[OF train_run_made[OF run mem]]
  have n: "0 < ?n" using ne by simp
  have idx: "length (snd (fst (ys ! i))) =
      (if Suc (i mod ?k) = ?k \<and> ?n mod ?B \<noteq> 0 then ?n mod ?B else ?B)"
  proof (cases "?B = 0")
    case True
    have p: "t_pointer (generate_train g) = int 0 * batch_size g"
      by (simp add: generate_train_fields)
    have "j * ?B < length (snd (t_audio_indexes (generate_train g)))" for j
      using True n by (simp add: generate_train_fields shuffle_length)
    from train_run_chunks[OF run b p this]
    have "map fst ys ! i = map (\<lambda>i. (fst (t_audio_indexes (generate_train g)),
                 take ?B (drop (i * ?B) (snd (t_audio_indexes (generate_train g))))))
               [0..<0 + m] ! i"
      by simp
    then have "snd (fst (ys ! i)) = []" using i len True by simp
    moreover have "?k = 0" using True by (simp add: epoch_len_def ceil_div_def)
    ultimately show ?thesis using True by simp
  next
    case False
    then have B: "0 < ?B" by simp
    then have b1: "1 \<le> batch_size g" by simp
    have k: "0 < ?k" unfolding epoch_len_def using B n by (rule ceil_div_pos)
    then have q: "i mod ?k < ceil_div ?n ?B" by (simp add: epoch_len_def)
    have "length (snd (fst (ys ! i))) = min ?B (?n - (i mod ?k) * ?B)"
      using train_run_index[OF b1 ne run i] by (simp add: epoch_perm_length)
    also have "\<dots> = (if Suc (i mod ?k) = ceil_div ?n ?B \<and> ?n mod ?B \<noteq> 0 then ?n mod ?B else ?B)"
      using B q by (rule chunk_length)
    finally show ?thesis by (simp add: epoch_len_def)
  qed
  from rows idx show ?thesis by simp
qed

theorem training_batch_rows_witness:
  "\<exists>ys st'. train_run ex_feeder 6 (generate_train ex_feeder) = Inr (ys, st') \<and>
     length (b_audio_name (snd (ys ! 1))) = 2 \<and> length (b_target (snd (ys ! 1))) = 2 \<and>
     length (b_audio_name (snd (ys ! 2))) = 1 \<and> length (b_feature (snd (ys ! 2))) = 1 \<and>
     length (b_audio_name (snd (ys ! 5))) = 1"
proof -
  from ex_six_batches obtain ys st' where
    run: "train_run ex_feeder 6 (generate_train ex_feeder) = Inr (ys, st')"
    by (cases "train_run ex_feeder 6 (generate_train ex_feeder)") auto
  have h: "0 \<le> batch_size ex_feeder" "snd (train_audio_indexes ex_feeder) \<noteq> []"
    by (simp_all add: ex_feeder_simps)
  have "length (b_audio_name (snd (ys ! 1))) = 2 \<and> length (b_target (snd (ys ! 1))) = 2"
    using training_batch_rows[OF h run, of 1] by (simp add: ex_feeder_simps)
  moreover have "length (b_audio_name (snd (ys ! 2))) = 1 \<and> length (b_feature (snd (ys ! 2))) = 1"
    using training_batch_rows[OF h run, of 2] by (simp add: ex_feeder_simps)
  moreover have "length (b_audio_name (snd (ys ! 5))) = 1"
    using training_batch_rows[OF h run, of 5] by (simp add: ex_feeder_simps)
  ultimately show ?thesis using run by blast
qed

subsection \<open>The training stream does not end\<close>

lemma train_run_total:
  assumes init: "DataGenerator_init lb hf train_meta validate_meta classes scal bs rs = Inr g"
    and ok: "table_ok (data_dict g)" "scalar_ok g" "targets_ok g"
    and tgt: "target (data_dict g) \<noteq> None"
    and ne: "snd (train_audio_indexes g) \<noteq> []"
    and st: "fst (t_audio_indexes st) = Int64"
            "set (snd (t_audio_indexes st)) \<subseteq> set (snd (train_audio_indexes g))"
  shows "\<exists>ys st'. train_run g m st = Inr (ys, st')"
  using st
proof (induction m arbitrary: st)
  case 0
  then show ?case by simp
next
  case (Suc m)
  let ?r = "reset_pointer st"
  let ?idx = "slice_array (t_audio_indexes ?r) (t_pointer ?r) (t_pointer ?r + batch_size g)"
  let ?st1 = "?r\<lparr> t_pointer := t_pointer ?r + batch_size g \<rparr>"
  have d: "fst ?idx = Int64"
    by (rule train_slice_ok(1)[OF init ne Suc.prems])
  have bd: "i < length (audio_name (data_dict g))" if "i \<in> set (snd ?idx)" for i
    using that by (rule train_slice_ok(2)[OF init ne Suc.prems])
  from make_batch_Inr[OF ok tgt d bd]
  obtain b where mb: "make_batch g ?idx = Inr b" by blast
  then have nxt: "train_next g st = Inr (?idx, b, ?st1)"
    by (simp add: train_next_def Let_def)
  have "fst (t_audio_indexes ?st1) = Int64"
    using Suc.prems(1) by (simp add: reset_pointer_dtype)
  moreover have "set (snd (t_audio_indexes ?st1)) \<subseteq> set (snd (train_audio_indexes g))"
    using Suc.prems(2) by (simp add: reset_pointer_set)
  ultimately obtain ys st' where "train_run g m ?st1 = Inr (ys, st')"
    using Suc.IH by blast
  with nxt show ?case by simp
qed

text \<open>
  The claim C2 as it is written fails on a store without labels: the feeder is
  constructed, its train index set has five entries and its batch size is 2, and
  the first request of the training stream raises the missing-key error.
\<close>

theorem training_stream_unlabelled_counterexample:
  "DataGenerator_init ex_lb_to_idx ex_hf_unlabelled ex_train_meta ex_validate_meta 2 ex_scalar 2 ex_rs
     = Inr ex_feeder_unlabelled \<and>
   length (snd (train_audio_indexes ex_feeder_unlabelled)) = 5 \<and>
   batch_size ex_feeder_unlabelled = 2 \<and>
   train_run ex_feeder_unlabelled 1 (generate_train ex_feeder_unlabelled)
     = Inl (KeyError ''target'')"
proof -
  let ?g = ex_feeder_unlabelled
  let ?st = "generate_train ?g"
  let ?idx = "slice_array (t_audio_indexes (reset_pointer ?st)) (t_pointer (reset_pointer ?st))
                (t_pointer (reset_pointer ?st) + batch_size ?g)"
  have none: "target (data_dict ?g) = None"
    by (simp add: ex_feeder_unlabelled_def)
  note gen = generate_train_ok[OF ex_init_unlabelled ex_unlabelled_ok(3)]
  have d: "fst ?idx = Int64"
    by (rule train_slice_ok(1)[OF ex_init_unlabelled ex_unlabelled_ok(3) gen])
  have bd: "i < length (audio_name (data_dict ?g))" if "i \<in> set (snd ?idx)" for i
    using that by (rule train_slice_ok(2)[OF ex_init_unlabelled ex_unlabelled_ok(3) gen])
  have "make_batch ?g ?idx = Inl (KeyError ''target'')"
    using ex_unlabelled_ok(1,2) none d bd by (rule make_batch_KeyError)
  then have "train_next ?g ?st = Inl (KeyError ''target'')"
    by (simp add: train_next_def Let_def)
  then show ?thesis
    using ex_init_unlabelled
    by (simp add: ex_feeder_unlabelled_def ex_feeder_def)
qed

text \<open>
  C2, amended. For every feeder constructed from a store that has the
  \<open>scene_label\<close> column, whose table and normalisation vectors are well-formed,
  whose class indices are all below \<open>classes_num\<close> (and not negative) and whose
  train index set is not empty, the training stream never ends and never
  fails: for every \<open>m\<close> the first \<open>m\<close> requests all yield a batch. This holds for a
  batch size of at least 1 in particular, and so for 10000 requests on an index set
  of size 5 with batch size 2.
\<close>

theorem training_stream_never_ends:
  assumes init: "DataGenerator_init lb hf train_meta validate_meta classes scal bs rs = Inr g"
    and lab: "hf_scene_label hf \<noteq> None"
    and ok: "table_ok (data_dict g)" "scalar_ok g" "targets_ok g"
    and ne: "snd (train_audio_indexes g) \<noteq> []"
  shows "\<exists>ys st'. train_run g m (generate_train g) = Inr (ys, st') \<and> length ys = m"
proof -
  have tgt: "target (data_dict g) \<noteq> None"
    using load_hdf5_target[OF init_fields(3)[OF init]] lab by simp
  from train_run_total[OF init ok tgt ne generate_train_ok[OF init ne]]
  obtain ys st' where run: "train_run g m (generate_train g) = Inr (ys, st')" by blast
  with train_run_length[OF run] show ?thesis by blast
qed

lemma ex_feeder_ok:
  "table_ok (data_dict ex_feeder)" "scalar_ok ex_feeder"
  "snd (train_audio_indexes ex_feeder) \<noteq> []" "hf_scene_label ex_hf \<noteq> None"
  "hf_source_label ex_hf \<noteq> None" "targets_ok ex_feeder"
  by (simp_all add: table_ok_def scalar_ok_def targets_ok_def ex_feeder_def ex_dd_def
      ex_scalar_def ex_hf_def)

theorem training_stream_never_ends_witness:
  "DataGenerator_init ex_lb_to_idx ex_hf ex_train_meta ex_validate_meta 2 ex_scalar 2 ex_rs
     = Inr ex_feeder \<and>
   length (snd (train_audio_indexes ex_feeder)) = 5 \<and> batch_size ex_feeder = 2 \<and>
   (\<exists>ys st'. train_run ex_feeder 10000 (generate_train ex_feeder) = Inr (ys, st') \<and>
      length ys = 10000)"
  using training_stream_never_ends[OF ex_init ex_feeder_ok(4,1,2,6,3), of 10000] ex_init
  by (simp add: ex_feeder_simps)

subsection \<open>The validation stream, batch by batch\<close>

lemma validate_next_slice:
  assumes nxt: "validate_next g st = Yield (idx, b, st')"
    and b: "0 \<le> batch_size g"
    and p: "v_pointer st = int j * batch_size g"
    and it: "v_iteration st = int j"
  shows "idx = (fst (v_audio_indexes st),
                take (nat (batch_size g)) (drop (j * nat (batch_size g)) (snd (v_audio_indexes st))))"
    and "st' = st\<lparr> v_pointer := int (Suc j) * batch_size g, v_iteration := int (Suc j) \<rparr>"
    and "Some (int j) \<noteq> v_max_iteration st"
    and "j * nat (batch_size g) < length (snd (v_audio_indexes st))"
proof -
  have nn: "int (j * nat (batch_size g)) = int j * batch_size g"
    using b by simp
  have p0: "0 \<le> v_pointer st" using p b by simp
  have np: "nat (v_pointer st) = j * nat (batch_size g)"
    using p nn by (metis nat_int)
  show "idx = (fst (v_audio_indexes st),
                take (nat (batch_size g)) (drop (j * nat (batch_size g)) (snd (v_audio_indexes st))))"
    using validate_next_D(2)[OF nxt] py_slice_nat[OF p0 b] np
    by (simp add: slice_array_def)
  show "st' = st\<lparr> v_pointer := int (Suc j) * batch_size g, v_iteration := int (Suc j) \<rparr>"
    using validate_next_D(3)[OF nxt] p it by (simp add: algebra_simps)
  show "Some (int j) \<noteq> v_max_iteration st"
    using validate_next_D(4)[OF nxt] it by simp
  show "j * nat (batch_size g) < length (snd (v_audio_indexes st))"
    using validate_next_D(5)[OF nxt] p nn by linarith
qed

lemma validate_next_Stop_D:
  assumes "validate_next g st = Stop"
  shows "Some (v_iteration st) = v_max_iteration st \<or>
         int (length (snd (v_audio_indexes st))) \<le> v_pointer st"
  using assms by (auto simp: validate_next_def Let_def split: if_splits sum.splits)

text \<open>What a drained validation stream has yielded, and why it ended.\<close>

lemma validate_drain_shape:
  assumes "validate_drain fuel g st = Some (ys, r)"
    and "0 \<le> batch_size g"
    and "v_pointer st = int j * batch_size g"
    and "v_iteration st = int j"
  shows "map fst ys = map (\<lambda>i. (fst (v_audio_indexes st),
             take (nat (batch_size g)) (drop (i * nat (batch_size g)) (snd (v_audio_indexes st)))))
           [j..<j + length ys] \<and>
         (\<forall>i. j \<le> i \<and> i < j + length ys \<longrightarrow>
              Some (int i) \<noteq> v_max_iteration st \<and>
              i * nat (batch_size g) < length (snd (v_audio_indexes st))) \<and>
         (r = None \<longrightarrow>
            v_max_iteration st = Some (int (j + length ys)) \<or>
            length (snd (v_audio_indexes st)) \<le> (j + length ys) * nat (batch_size g))"
  using assms
proof (induction fuel arbitrary: st j ys)
  case 0
  then show ?case by simp
next
  case (Suc fuel)
  show ?case
  proof (cases "validate_next g st")
    case Stop
    with Suc.prems(1) have ys: "ys = []" "r = None" by simp_all
    from validate_next_Stop_D[OF Stop] Suc.prems(2,3,4)
    have "v_max_iteration st = Some (int j) \<or>
          length (snd (v_audio_indexes st)) \<le> j * nat (batch_size g)"
    proof (elim disjE)
      assume "Some (v_iteration st) = v_max_iteration st"
      then show ?thesis using Suc.prems(4) by simp
    next
      assume a: "int (length (snd (v_audio_indexes st))) \<le> v_pointer st"
      have "int (j * nat (batch_size g)) = int j * batch_size g"
        using Suc.prems(2) by simp
      with a Suc.prems(3) have "length (snd (v_audio_indexes st)) \<le> j * nat (batch_size g)"
        by linarith
      then show ?thesis by simp
    qed
    with ys show ?thesis by auto
  next
    case (Raise e)
    with Suc.prems(1) show ?thesis by auto
  next
    case (Yield y)
    obtain idx b st1 where y: "y = (idx, b, st1)" by (cases y) auto
    from Suc.prems(1) Yield y obtain ys1 where
      run: "validate_drain fuel g st1 = Some (ys1, r)" and ys: "ys = (idx, b) # ys1"
      by (auto split: option.splits)
    note s = validate_next_slice[OF Yield[unfolded y] Suc.prems(2,3,4)]
    have arr: "v_audio_indexes st1 = v_audio_indexes st"
      and mi: "v_max_iteration st1 = v_max_iteration st"
      and p1: "v_pointer st1 = int (Suc j) * batch_size g"
      and it1: "v_iteration st1 = int (Suc j)"
      using s(2) by simp_all
    note ih = Suc.IH[OF run Suc.prems(2) p1 it1, unfolded arr mi]
    have len: "j + length ys = Suc j + length ys1" using ys by simp
    have 1: "map fst ys = map (\<lambda>i. (fst (v_audio_indexes st),
             take (nat (batch_size g)) (drop (i * nat (batch_size g)) (snd (v_audio_indexes st)))))
           [j..<j + length ys]"
    proof -
      have ih1: "map fst ys1 = map (\<lambda>i. (fst (v_audio_indexes st),
             take (nat (batch_size g)) (drop (i * nat (batch_size g)) (snd (v_audio_indexes st)))))
           [Suc j..<Suc j + length ys1]"
        using ih by blast
      have up: "[j..<j + length ys] = j # [Suc j..<Suc j + length ys1]"
        unfolding len by (rule upt_conv_Cons) simp
      show ?thesis
        unfolding up using s(1) ys by (simp only: list.map fst_conv ih1)
    qed
    have 2: "Some (int i) \<noteq> v_max_iteration st \<and>
              i * nat (batch_size g) < length (snd (v_audio_indexes st))"
      if "j \<le> i \<and> i < j + length ys" for i
    proof (cases "i = j")
      case True
      with s(3,4) show ?thesis by simp
    next
      case False
      with that len have "Suc j \<le> i \<and> i < Suc j + length ys1" by simp
      with ih show ?thesis by blast
    qed
    have 3: "r = None \<longrightarrow>
            v_max_iteration st = Some (int (j + length ys)) \<or>
            length (snd (v_audio_indexes st)) \<le> (j + length ys) * nat (batch_size g)"
      using ih unfolding len by blast
    from 1 2 3 show ?thesis by blast
  qed
qed



subsection \<open>The number of validation batches\<close>

lemma filtered_indexes_validate:
  "source_label (data_dict g) = Some sl \<Longrightarrow>
   filtered_indexes g ''validate'' sources
     = filter (\<lambda>i. sl ! i \<in> set sources) (snd (validate_audio_indexes g))"
  by (simp add: filtered_indexes_def)









subsection \<open>The validation stream walks the filtered index set in order\<close>

lemma ex_validate_one:
  "validate_stream 10 ex_feeder ''validate'' [''a'', ''b''] (Some 1)
     = Some ([((Int64, [2, 0]),
               \<lparr> b_audio_name = [''c'', ''a''], b_feature = [[5, 6], [1, 2]],
                 b_target = [[1, 0], [1, 0]] \<rparr>)], None)"
  by code_simp

lemma ex_filtered: "filtered_indexes ex_feeder ''validate'' [''a'', ''b''] = [2, 0, 1]"
  by code_simp

text \<open>
  The claim C6 as it is written fails when a maximum iteration count cuts the stream
  short: with batch size 2 and a maximum of 1 the stream yields the rows 2, 0 and
  ends, while the filtered validation index set is 2, 0, 1.
\<close>

theorem validation_order_truncated_counterexample:
  "validate_stream 10 ex_feeder ''validate'' [''a'', ''b''] (Some 1)
     = Some ([((Int64, [2, 0]),
               \<lparr> b_audio_name = [''c'', ''a''], b_feature = [[5, 6], [1, 2]],
                 b_target = [[1, 0], [1, 0]] \<rparr>)], None) \<and>
   yielded_indexes [((Int64, [2, 0]),
               \<lparr> b_audio_name = [''c'', ''a''], b_feature = [[5, 6], [1, 2]],
                 b_target = [[1, 0], [1, 0]] \<rparr>)] = [2, 0] \<and>
   filtered_indexes ex_feeder ''validate'' [''a'', ''b''] = [2, 0, 1] \<and>
   yielded_indexes [((Int64, [2, 0]),
               \<lparr> b_audio_name = [''c'', ''a''], b_feature = [[5, 6], [1, 2]],
                 b_target = [[1, 0], [1, 0]] \<rparr>)]
     \<noteq> filtered_indexes ex_feeder ''validate'' [''a'', ''b'']"
  using ex_validate_one ex_filtered by (simp add: yielded_indexes_def)

text \<open>
  C6, amended. For every call of the validation stream with mode "validate", any
  source list and a batch size that is not negative, the row indices behind the
  yielded batches, concatenated in the order of the yields, are an initial segment
  of the order-preserving filter of the validation index set by membership of the
  source label: its first (number of yielded batches times batch size) entries.
  Nothing is shuffled or reordered. When the stream has ended by itself the segment
  is the whole filtered set if no maximum iteration count was given, and its first
  (maximum iteration count times batch size) entries if one was.
\<close>

theorem validation_order_is_filter_prefix:
  assumes run: "validate_stream fuel g ''validate'' sources max_iteration = Some (ys, r)"
    and b: "0 \<le> batch_size g"
  shows "yielded_indexes ys
           = take (length ys * nat (batch_size g)) (filtered_indexes g ''validate'' sources) \<and>
         (r = None \<and> max_iteration = None \<longrightarrow>
            yielded_indexes ys = filtered_indexes g ''validate'' sources) \<and>
         (\<forall>M. r = None \<and> max_iteration = Some M \<and> 0 \<le> M \<longrightarrow>
            yielded_indexes ys
              = take (nat M * nat (batch_size g)) (filtered_indexes g ''validate'' sources))"
proof (cases "generate_validate g ''validate'' sources max_iteration")
  case (Inl e)
  with run have "ys = []" "r = Some e" by (simp_all add: validate_stream_def)
  then show ?thesis by (simp add: yielded_indexes_def)
next
  case (Inr vst)
  let ?B = "nat (batch_size g)"
  let ?F = "filtered_indexes g ''validate'' sources"
  let ?L = "length ys"
  from run Inr have drain: "validate_drain fuel g vst = Some (ys, r)"
    by (simp add: validate_stream_def)
  note d = generate_validate_D(1-3)[OF Inr]
  have arr: "snd (v_audio_indexes vst) = ?F"
    using generate_validate_D(6)[OF Inr] by (simp add: snd_np_array)
  have p: "v_pointer vst = int 0 * batch_size g" and it: "v_iteration vst = int 0"
    using d by simp_all
  note sh = validate_drain_shape[OF drain b p it, unfolded d arr]
  have "map (\<lambda>y. snd (fst y)) ys = map snd (map fst ys)" by simp
  also have "\<dots> = map (\<lambda>i. take ?B (drop (i * ?B) ?F)) [0..<?L]"
    using sh by (simp add: comp_def)
  finally have pre: "yielded_indexes ys = take (?L * ?B) ?F"
    by (simp add: yielded_indexes_def concat_chunks)
  have each: "Some (int i) \<noteq> max_iteration" if "i < ?L" for i
    using sh that by simp
  have fin: "r = None \<Longrightarrow> max_iteration = Some (int ?L) \<or> length ?F \<le> ?L * ?B"
    using sh by simp
  have whole: "yielded_indexes ys = ?F" if "r = None" "max_iteration = None"
    using fin[OF that(1)] that(2) pre by simp
  have upto: "yielded_indexes ys = take (nat M * ?B) ?F"
    if "r = None" "max_iteration = Some M" "0 \<le> M" for M
  proof -
    have LM: "?L \<le> nat M"
    proof (rule ccontr)
      assume "\<not> ?L \<le> nat M"
      then have "nat M < ?L" by simp
      from each[OF this] that(2,3) show False by simp
    qed
    from fin[OF that(1)] show ?thesis
    proof
      assume "max_iteration = Some (int ?L)"
      with that(2) have "nat M = ?L" by auto
      with pre show ?thesis by simp
    next
      assume full: "length ?F \<le> ?L * ?B"
      from LM have "?L * ?B \<le> nat M * ?B" by (rule mult_le_mono1)
      with full have "length ?F \<le> nat M * ?B" by (rule le_trans)
      with full pre show ?thesis by simp
    qed
  qed
  from pre whole upto show ?thesis by blast
qed

theorem validation_order_is_filter_prefix_witness:
  "validate_stream 10 ex_feeder ''validate'' [''a'', ''b''] (Some 1)
     = Some ([((Int64, [2, 0]),
               \<lparr> b_audio_name = [''c'', ''a''], b_feature = [[5, 6], [1, 2]],
                 b_target = [[1, 0], [1, 0]] \<rparr>)], None) \<and>
   0 \<le> batch_size ex_feeder \<and>
   yielded_indexes [((Int64, [2, 0]),
               \<lparr> b_audio_name = [''c'', ''a''], b_feature = [[5, 6], [1, 2]],
                 b_target = [[1, 0], [1, 0]] \<rparr>)] = take (1 * 2) [2, 0, 1]"
proof -
  have b: "0 \<le> batch_size ex_feeder" by (simp add: ex_feeder_simps)
  from validation_order_is_filter_prefix[OF ex_validate_one b, THEN conjunct1]
  show ?thesis using ex_validate_one b by (simp add: ex_filtered ex_feeder_simps)
qed

end
